theory Spec2Isabelle
  imports Complex_Main "HOL-Library.Word"
begin

unbundle bit_operations_syntax

section \<open>Values of type double\<close>

text \<open>
  A C \<open>double\<close> is modelled by a finite real or one of the three special values of
  IEEE 754 arithmetic. Finite arithmetic is exact (no rounding, no overflow) and zero has
  no sign, so \<open>1 / 0\<close> is \<open>PInf\<close>. The special values follow the IEEE rules:
  \<open>0 * inf\<close> and \<open>inf - inf\<close> are \<open>NaN\<close>, \<open>NaN\<close> is absorbing, and every
  comparison with \<open>NaN\<close> is false. A literal such as \<open>0.25\<close> of the source is
  written \<open>Fin 0.25\<close>. Exact finite arithmetic is an idealisation: the rounding and
  the overflow of doubles are outside this model, and the examples below use values
  that doubles hold exactly.
\<close>

datatype dbl = Fin real | PInf | MInf | NaN

instantiation dbl :: "{zero,one,plus,times,uminus,minus,inverse,ord}"
begin

definition zero_dbl :: dbl where
  "zero_dbl = Fin 0"

definition one_dbl :: dbl where
  "one_dbl = Fin 1"

fun plus_dbl :: "dbl \<Rightarrow> dbl \<Rightarrow> dbl" where
  "plus_dbl (Fin a) (Fin b) = Fin (a + b)"
| "plus_dbl NaN _ = NaN"
| "plus_dbl _ NaN = NaN"
| "plus_dbl PInf MInf = NaN"
| "plus_dbl MInf PInf = NaN"
| "plus_dbl PInf _ = PInf"
| "plus_dbl _ PInf = PInf"
| "plus_dbl MInf _ = MInf"
| "plus_dbl _ MInf = MInf"

fun uminus_dbl :: "dbl \<Rightarrow> dbl" where
  "uminus_dbl (Fin a) = Fin (- a)"
| "uminus_dbl PInf = MInf"
| "uminus_dbl MInf = PInf"
| "uminus_dbl NaN = NaN"

definition minus_dbl :: "dbl \<Rightarrow> dbl \<Rightarrow> dbl" where
  "minus_dbl a b = a + (- b)"

fun times_dbl :: "dbl \<Rightarrow> dbl \<Rightarrow> dbl" where
  "times_dbl (Fin a) (Fin b) = Fin (a * b)"
| "times_dbl NaN _ = NaN"
| "times_dbl _ NaN = NaN"
| "times_dbl (Fin a) PInf = (if a = 0 then NaN else if 0 < a then PInf else MInf)"
| "times_dbl (Fin a) MInf = (if a = 0 then NaN else if 0 < a then MInf else PInf)"
| "times_dbl PInf (Fin b) = (if b = 0 then NaN else if 0 < b then PInf else MInf)"
| "times_dbl MInf (Fin b) = (if b = 0 then NaN else if 0 < b then MInf else PInf)"
| "times_dbl PInf PInf = PInf"
| "times_dbl MInf MInf = PInf"
| "times_dbl PInf MInf = MInf"
| "times_dbl MInf PInf = MInf"

fun inverse_dbl :: "dbl \<Rightarrow> dbl" where
  "inverse_dbl (Fin a) = (if a = 0 then PInf else Fin (inverse a))"
| "inverse_dbl PInf = Fin 0"
| "inverse_dbl MInf = Fin 0"
| "inverse_dbl NaN = NaN"

definition divide_dbl :: "dbl \<Rightarrow> dbl \<Rightarrow> dbl" where
  "divide_dbl a b = a * inverse b"

fun less_dbl :: "dbl \<Rightarrow> dbl \<Rightarrow> bool" where
  "less_dbl (Fin a) (Fin b) = (a < b)"
| "less_dbl NaN _ = False"
| "less_dbl _ NaN = False"
| "less_dbl MInf MInf = False"
| "less_dbl MInf _ = True"
| "less_dbl PInf _ = False"
| "less_dbl _ PInf = True"
| "less_dbl _ MInf = False"

definition less_eq_dbl :: "dbl \<Rightarrow> dbl \<Rightarrow> bool" where
  "less_eq_dbl a b = (a < b \<or> (a = b \<and> a \<noteq> NaN))"

instance ..

end

text \<open>Exact addition with the special values is associative and commutative.\<close>

instance dbl :: comm_monoid_add
proof
  fix x y z :: dbl
  show "x + y = y + x"
  proof (cases x)
    case (Fin r)
    then show ?thesis by (cases y) simp_all
  qed (cases y; simp)+
  show "0 + x = x"
    unfolding zero_dbl_def by (cases x) simp_all
  show "x + y + z = x + (y + z)"
    by (cases x; cases y; cases z; simp)
qed


fun fabs :: "dbl \<Rightarrow> dbl" where
  "fabs (Fin a) = Fin \<bar>a\<bar>"
| "fabs PInf = PInf"
| "fabs MInf = PInf"
| "fabs NaN = NaN"

section \<open>Pointers, outcomes and external definitions\<close>

text \<open>
  A pointer to doubles (\<open>double *\<close>, \<open>cs_real_t *\<close>) is the map from offsets to the
  doubles stored behind it; \<open>p + n\<close> is \<open>ptr_add p n\<close>. An array of \<open>cs_real_3_t\<close>
  is laid out flat, entry \<open>[v][k]\<close> at offset \<open>3 * v + k\<close>, which is also what the
  cast to \<open>const cs_real_t *\<close> of the source reads.
\<close>

type_synonym ptr = "nat \<Rightarrow> dbl"

definition ptr_add :: "ptr \<Rightarrow> nat \<Rightarrow> ptr" where
  "ptr_add p n = (\<lambda>k. p (n + k))"

definition add_at :: "ptr \<Rightarrow> nat \<Rightarrow> dbl \<Rightarrow> ptr" where
  \<comment> \<open>\<open>p[i] += x\<close>\<close>
  "add_at p i x = p(i := p i + x)"

text \<open>
  \<open>cs_analytic_func_t\<close>: called as \<open>ana(time, n_points, xyz, retval)\<close>, it stores one
  value per point in \<open>retval[0 .. n_points - 1]\<close>. The function \<open>f\<close> gives the value
  stored at each index. \<open>call_analytic\<close> is the call with \<open>retval = mem + off\<close>; it
  returns the array \<open>mem\<close> afterwards. \<open>analytic_at\<close> is the call for one point with
  the address of a local variable as \<open>retval\<close>; it returns that variable.
\<close>

type_synonym cs_analytic_func_t = "dbl \<Rightarrow> nat \<Rightarrow> ptr \<Rightarrow> nat \<Rightarrow> dbl"

definition call_analytic ::
  "cs_analytic_func_t \<Rightarrow> dbl \<Rightarrow> nat \<Rightarrow> ptr \<Rightarrow> ptr \<Rightarrow> nat \<Rightarrow> ptr" where
  "call_analytic f t n xyz mem off =
     (\<lambda>i. if off \<le> i \<and> i < off + n then f t n xyz (i - off) else mem i)"

definition analytic_at :: "cs_analytic_func_t \<Rightarrow> dbl \<Rightarrow> ptr \<Rightarrow> dbl" where
  "analytic_at f t xyz = f t 1 xyz 0"

text \<open>
  The messages of \<open>bft_error\<close>, which stops the run, and the ways in which a run ends
  without one: a failed \<open>assert\<close> (debug builds only), and the accesses that C leaves
  undefined.
\<close>

datatype error =
    Empty_source_term
  | Limit_source_terms
  | Invalid_quadrature
  | Invalid_definition
  | Invalid_space_scheme

datatype abnormal =
    Assertion_failure
  | Null_dereference
  | Null_call
  | Out_of_bounds_read
  | Out_of_bounds_write
  | Invalid_free

datatype 'a outcome = Return 'a | Bft_error error | Abnormal abnormal

text \<open>Sequencing: the rest of the function runs only after a normal return.\<close>

fun bind :: "'a outcome \<Rightarrow> ('a \<Rightarrow> 'b outcome) \<Rightarrow> 'b outcome" where
  "bind (Return x) f = f x"
| "bind (Bft_error e) f = Bft_error e"
| "bind (Abnormal a) f = Abnormal a"

text \<open>Enumerations of \<open>cs_param.h\<close> and \<open>cs_quadrature.h\<close>, with the members this
  file names; any other member is \<open>_OTHER\<close>.\<close>

datatype cs_space_scheme_t =
    CS_SPACE_SCHEME_CDOVB
  | CS_SPACE_SCHEME_CDOVCB
  | CS_SPACE_SCHEME_CDOFB
  | CS_SPACE_SCHEME_HHO
  | CS_SPACE_SCHEME_OTHER nat

datatype cs_param_def_type_t =
    CS_PARAM_DEF_BY_VALUE
  | CS_PARAM_DEF_BY_ANALYTIC_FUNCTION
  | CS_PARAM_DEF_BY_ARRAY
  | CS_PARAM_DEF_OTHER nat

datatype cs_quadra_type_t =
    CS_QUADRATURE_BARY
  | CS_QUADRATURE_BARY_SUBDIV
  | CS_QUADRATURE_HIGHER
  | CS_QUADRATURE_HIGHEST
  | CS_QUADRATURE_OTHER nat

text \<open>
  The macros of the headers, which are not among the sources, are parameters: the
  values of the flags and the maximal number of source terms. The flag type
  \<open>cs_flag_t\<close> is the type parameter \<open>'f\<close>, instantiated below with words of any
  width, and the mask type \<open>cs_mask_t\<close> is a word of any width \<open>'m\<close>.
  \<open>NDEBUG\<close> tells whether \<open>assert\<close> is compiled out.
\<close>

record 'f cs_header =
  CS_N_MAX_SOURCE_TERMS :: nat
  CS_FLAG_FULL_LOC :: 'f
  CS_FLAG_PRIMAL :: 'f
  CS_FLAG_DUAL :: 'f
  CS_FLAG_STATE_OWNER :: 'f
  CS_FLAG_SYS_SOURCETERM :: 'f
  CS_FLAG_SYS_HLOC_CONF :: 'f
  CS_FLAG_SYS_SOURCES_HLOC :: 'f
  NDEBUG :: bool

text \<open>
  The shared structures behind the static pointers \<open>cs_cdo_quant\<close> and
  \<open>cs_time_step\<close>, and the functions of other files that this one calls:
  the mesh locations (a list of element ids, \<open>None\<close> for the NULL list of a location
  that covers all cells; \<open>n_elts[0]\<close> is the length of the list),
  \<open>cs_math_voltet\<close>, \<open>cs_quadrature_tet_5pts\<close> (the Gauss points, flat, and the
  weights) and \<open>cs_locmat_matvec\<close>, which gets the matrix and two pointers into the
  scratch array, given here as the array and the two offsets, and returns the array.
\<close>

record 'h cs_shared =
  n_cells :: nat
  t_cur :: dbl
  cs_mesh_location_get_elt_list :: "int \<Rightarrow> int list option"
  cs_math_voltet :: "ptr \<Rightarrow> ptr \<Rightarrow> ptr \<Rightarrow> ptr \<Rightarrow> dbl"
  cs_quadrature_tet_5pts :: "ptr \<Rightarrow> ptr \<Rightarrow> ptr \<Rightarrow> ptr \<Rightarrow> dbl \<Rightarrow> ptr \<times> ptr"
  cs_locmat_matvec :: "'h \<Rightarrow> ptr \<Rightarrow> nat \<Rightarrow> nat \<Rightarrow> ptr"

section \<open>Data structures\<close>

text \<open>
  \<open>cs_source_term_t\<close>. The name and the array are pointers (addresses of allocated
  blocks, \<open>None\<close> for NULL). The two members of the union \<open>def\<close> that the evaluators
  read, \<open>def.get.val\<close> and \<open>def.analytic\<close>, stand side by side, and
  \<open>array_desc_state\<close> is \<open>array_desc.state\<close>. The members that no function below
  reads (\<open>array_desc.location\<close>, \<open>struc\<close>) are left out.
\<close>

record 'f cs_source_term_t =
  name :: "nat option"
  ml_id :: int
  flag :: 'f
  def_type :: cs_param_def_type_t
  def_get_val :: dbl
  def_analytic :: cs_analytic_func_t
  quad_type :: cs_quadra_type_t
  array_desc_state :: 'f
  array :: "nat option"

text \<open>\<open>cs_quant_t\<close> (of a face or an edge), \<open>cs_cell_mesh_t\<close>, \<open>cs_cell_builder_t\<close>
  and \<open>cs_cell_sys_t\<close>, with the members this file reads or writes. The members
  \<open>cb->values\<close> and \<open>csys->source\<close> are \<open>cb_values\<close> and \<open>csys_source\<close>.\<close>

record cs_quant_t =
  center :: ptr

record cs_cell_mesh_t =
  c_id :: nat
  xc :: ptr
  vol_c :: dbl
  n_vc :: nat
  xv :: ptr
  wvc :: ptr
  n_ec :: nat
  edge :: "nat \<Rightarrow> cs_quant_t"
  e2v_ids :: "nat \<Rightarrow> nat"
  n_fc :: nat
  face :: "nat \<Rightarrow> cs_quant_t"
  f2e_idx :: "nat \<Rightarrow> nat"
  f2e_ids :: "nat \<Rightarrow> nat"

record 'h cs_cell_builder_t =
  hdg :: 'h
  cb_values :: ptr
  vectors :: ptr

record cs_cell_sys_t =
  n_dofs :: nat
  csys_source :: ptr

section \<open>Cellwise evaluators\<close>

text \<open>
  Each evaluator gets the descriptor (\<open>None\<close> for NULL), the cell, the builder and the
  array \<open>vals\<close> behind its parameter \<open>values\<close>, and returns the builder and the array
  as it leaves them. The assertions of the evaluators (non-NULL \<open>values\<close>, \<open>cm\<close>,
  \<open>cb\<close> and \<open>cb->hdg\<close>) hold by the types. A \<open>for\<close> loop over \<open>a \<le> i < b\<close> is
  a fold over \<open>[a..<b]\<close>; a local array of three doubles that a loop over \<open>k\<close> fills
  before it is read is the function of \<open>k\<close>. \<open>W\<close> is the scratch array
  \<open>cb->values\<close> and \<open>V\<close> the scratch array \<open>cb->vectors\<close>; the pointers that the
  source sets into them (\<open>eval\<close>, \<open>hdg_eval\<close>, \<open>contrib\<close>, \<open>pec_vol\<close>, ...) are
  offsets, so that overlapping ranges overlap here as well.
\<close>

type_synonym ('f, 'h) cs_source_term_cellwise_t =
  "'f cs_source_term_t option \<Rightarrow> cs_cell_mesh_t \<Rightarrow> 'h cs_cell_builder_t \<Rightarrow> ptr
     \<Rightarrow> 'h cs_cell_builder_t \<times> ptr"

definition cs_source_term_pvsp_by_value ::
  "'h cs_shared \<Rightarrow> ('f, 'h) cs_source_term_cellwise_t" where
  "cs_source_term_pvsp_by_value sh source cm cb vals =
     (case source of
        None \<Rightarrow> (cb, vals)
      | Some st \<Rightarrow>
          let pot_value = def_get_val st;
              W1 = fold (\<lambda>v W. W(v := pot_value)) [0..<n_vc cm] (cb_values cb);
              W2 = cs_locmat_matvec sh (hdg cb) W1 0 (n_vc cm)
          in (cb\<lparr>cb_values := W2\<rparr>,
              fold (\<lambda>v vs. add_at vs v (W2 (n_vc cm + v))) [0..<n_vc cm] vals))"

definition cs_source_term_pvsp_by_analytic ::
  "'h cs_shared \<Rightarrow> ('f, 'h) cs_source_term_cellwise_t" where
  "cs_source_term_pvsp_by_analytic sh source cm cb vals =
     (case source of
        None \<Rightarrow> (cb, vals)
      | Some st \<Rightarrow>
          let tcur = t_cur sh;
              W1 = call_analytic (def_analytic st) tcur (n_vc cm) (xv cm) (cb_values cb) 0;
              W2 = cs_locmat_matvec sh (hdg cb) W1 0 (n_vc cm)
          in (cb\<lparr>cb_values := W2\<rparr>,
              fold (\<lambda>v vs. add_at vs v (W2 (n_vc cm + v))) [0..<n_vc cm] vals))"

definition cs_source_term_dcsd_by_value ::
  "'h cs_shared \<Rightarrow> ('f, 'h) cs_source_term_cellwise_t" where
  "cs_source_term_dcsd_by_value sh source cm cb vals =
     (case source of
        None \<Rightarrow> (cb, vals)
      | Some st \<Rightarrow>
          let density_value = def_get_val st
          in (cb, fold (\<lambda>v vs. add_at vs v (density_value * wvc cm v)) [0..<n_vc cm] vals))"

text \<open>The loop on the edges of a face of the barycentric evaluator, on \<open>xgv\<close>.\<close>

definition bary_edge_step ::
  "'h cs_shared \<Rightarrow> cs_cell_mesh_t \<Rightarrow> ptr \<Rightarrow> ptr \<Rightarrow> nat \<Rightarrow> ptr \<Rightarrow> ptr" where
  "bary_edge_step sh cm xf xfc i xgv =
     (let e = f2e_ids cm i;
          v1 = e2v_ids cm (2 * e);
          v2 = e2v_ids cm (2 * e + 1);
          xv1 = ptr_add (xv cm) (3 * v1);
          xv2 = ptr_add (xv cm) (3 * v2);
          tet_vol = Fin 0.5 * cs_math_voltet sh xv1 xv2 xf (xc cm);
          xgv1 = fold (\<lambda>k g. add_at g (3 * v1 + k)
                   (tet_vol * (xfc k + Fin 0.375 * xv1 k + Fin 0.125 * xv2 k))) [0..<3] xgv
      in fold (\<lambda>k g. add_at g (3 * v2 + k)
                   (tet_vol * (xfc k + Fin 0.375 * xv2 k + Fin 0.125 * xv1 k))) [0..<3] xgv1)"

definition bary_face_step :: "'h cs_shared \<Rightarrow> cs_cell_mesh_t \<Rightarrow> nat \<Rightarrow> ptr \<Rightarrow> ptr" where
  "bary_face_step sh cm f xgv =
     (let xf = center (face cm f);
          xfc = (\<lambda>k. Fin 0.25 * (xf k + xc cm k))
      in fold (bary_edge_step sh cm xf xfc) [f2e_idx cm f..<f2e_idx cm (f + 1)] xgv)"

definition bary_scale_step :: "cs_cell_mesh_t \<Rightarrow> nat \<Rightarrow> ptr \<Rightarrow> ptr" where
  "bary_scale_step cm v xgv =
     (let vol_vc = vol_c cm * wvc cm v;
          invvol = 1 / vol_vc
      in fold (\<lambda>k g. g(3 * v + k := g (3 * v + k) * invvol)) [0..<3] xgv)"

definition cs_source_term_dcsd_bary_by_analytic ::
  "'h cs_shared \<Rightarrow> ('f, 'h) cs_source_term_cellwise_t" where
  "cs_source_term_dcsd_bary_by_analytic sh source cm cb vals =
     (case source of
        None \<Rightarrow> (cb, vals)
      | Some st \<Rightarrow>
          let V1 = fold (\<lambda>v g. g(3 * v := 0, 3 * v + 1 := 0, 3 * v + 2 := 0))
                     [0..<n_vc cm] (vectors cb);
              V2 = fold (bary_face_step sh cm) [0..<n_fc cm] V1;
              tcur = t_cur sh;
              V3 = fold (bary_scale_step cm) [0..<n_vc cm] V2;
              W1 = call_analytic (def_analytic st) tcur (n_vc cm) V3 (cb_values cb) 0
          in (cb\<lparr>cb_values := W1, vectors := V3\<rparr>,
              fold (\<lambda>v vs. vs(v := vol_c cm * wvc cm v * W1 v)) [0..<n_vc cm] vals))"

definition q1o1_edge_step ::
  "'h cs_shared \<Rightarrow> cs_analytic_func_t \<Rightarrow> cs_cell_mesh_t \<Rightarrow> ptr \<Rightarrow> ptr \<Rightarrow> nat \<Rightarrow> ptr \<Rightarrow> ptr" where
  "q1o1_edge_step sh ana cm xf xfc i vals =
     (let e = f2e_ids cm i;
          v1 = e2v_ids cm (2 * e);
          v2 = e2v_ids cm (2 * e + 1);
          xv1 = ptr_add (xv cm) (3 * v1);
          xv2 = ptr_add (xv cm) (3 * v2);
          tet_vol = Fin 0.5 * cs_math_voltet sh xv1 xv2 xf (xc cm);
          xg = (\<lambda>j. if j < 3 then xfc j + Fin 0.375 * xv1 j + Fin 0.125 * xv2 j
                    else xfc (j - 3) + Fin 0.375 * xv2 (j - 3) + Fin 0.125 * xv1 (j - 3));
          result = ana (t_cur sh) 2 xg;
          vals1 = add_at vals v1 (tet_vol * result 0)
      in add_at vals1 v2 (tet_vol * result 1))"

definition cs_source_term_dcsd_q1o1_by_analytic ::
  "'h cs_shared \<Rightarrow> ('f, 'h) cs_source_term_cellwise_t" where
  "cs_source_term_dcsd_q1o1_by_analytic sh source cm cb vals =
     (case source of
        None \<Rightarrow> (cb, vals)
      | Some st \<Rightarrow>
          let ana = def_analytic st
          in (cb, fold (\<lambda>f vs.
                    let xf = center (face cm f);
                        xfc = (\<lambda>k. Fin 0.25 * (xf k + xc cm k))
                    in fold (q1o1_edge_step sh ana cm xf xfc)
                         [f2e_idx cm f..<f2e_idx cm (f + 1)] vs) [0..<n_fc cm] vals))"

text \<open>
  The ten-point rule. \<open>contrib\<close> is \<open>W\<close> at offset 0, \<open>result_v\<close> and then
  \<open>pec_vol\<close> are \<open>W\<close> at offset \<open>n_vc\<close>, and \<open>result_vc\<close>, \<open>pfv_vol\<close>, \<open>val_ev\<close>
  and \<open>val_ec\<close> are \<open>W\<close> at offset \<open>2 * n_vc\<close>; \<open>xvc\<close>, \<open>xev\<close> and \<open>xe\<close> are
  \<open>V\<close> at offset 0 and \<open>xec\<close> is \<open>V\<close> at offset \<open>3 * n_ec\<close>.
\<close>

definition q10o2_edge_step ::
  "'h cs_shared \<Rightarrow> cs_analytic_func_t \<Rightarrow> cs_cell_mesh_t \<Rightarrow> ptr \<Rightarrow> nat \<Rightarrow> ptr \<Rightarrow> ptr" where
  "q10o2_edge_step sh ana cm xf i W =
     (let e = f2e_ids cm i;
          v1 = e2v_ids cm (2 * e);
          v2 = e2v_ids cm (2 * e + 1);
          pef_vol = cs_math_voltet sh (ptr_add (xv cm) (3 * v1)) (ptr_add (xv cm) (3 * v2))
                      xf (xc cm);
          W1 = add_at W (n_vc cm + e) pef_vol;
          W2 = add_at W1 (2 * n_vc cm + v1) (Fin 0.5 * pef_vol);
          W3 = add_at W2 (2 * n_vc cm + v2) (Fin 0.5 * pef_vol);
          xef = (\<lambda>k. Fin 0.5 * (center (edge cm e) k + xf k));
          result_ef = analytic_at ana (t_cur sh) xef;
          ef_contrib = Fin 0.1 * pef_vol * result_ef;
          W4 = add_at W3 v1 ef_contrib
      in add_at W4 v2 ef_contrib)"

definition q10o2_face_vertex_step ::
  "'h cs_shared \<Rightarrow> cs_analytic_func_t \<Rightarrow> cs_cell_mesh_t \<Rightarrow> ptr \<Rightarrow> dbl \<Rightarrow> nat \<Rightarrow> ptr \<Rightarrow> ptr" where
  "q10o2_face_vertex_step sh ana cm xf val_f v W =
     (if 0 < W (2 * n_vc cm + v) then
        let xfv = (\<lambda>k. Fin 0.5 * (xf k + xv cm (3 * v + k)));
            val_fv = analytic_at ana (t_cur sh) xfv
        in add_at W v (W (2 * n_vc cm + v) * (val_f + Fin 0.2 * val_fv))
      else W)"

definition q10o2_face_step ::
  "'h cs_shared \<Rightarrow> cs_analytic_func_t \<Rightarrow> cs_cell_mesh_t \<Rightarrow> nat \<Rightarrow> ptr \<Rightarrow> ptr" where
  "q10o2_face_step sh ana cm f W =
     (let xf = center (face cm f);
          W1 = fold (\<lambda>v W. W(2 * n_vc cm + v := 0)) [0..<n_vc cm] W;
          W2 = fold (q10o2_edge_step sh ana cm xf) [f2e_idx cm f..<f2e_idx cm (f + 1)] W1;
          val_f0 = analytic_at ana (t_cur sh) xf * Fin (- 0.05);
          xfc = (\<lambda>k. Fin 0.5 * (xf k + xc cm k));
          val_fc = analytic_at ana (t_cur sh) xfc;
          val_f = val_f0 + Fin 0.2 * val_fc
      in fold (q10o2_face_vertex_step sh ana cm xf val_f) [0..<n_vc cm] W2)"

definition q10o2_xev_step :: "cs_cell_mesh_t \<Rightarrow> nat \<Rightarrow> ptr \<Rightarrow> ptr" where
  "q10o2_xev_step cm e V =
     (let xe = center (edge cm e);
          v1 = e2v_ids cm (2 * e);
          v2 = e2v_ids cm (2 * e + 1)
      in fold (\<lambda>k V.
           let V1 = V(3 * (2 * e) + k := Fin 0.5 * (xv cm (3 * v1 + k) + xe k))
           in V1(3 * (2 * e + 1) + k := Fin 0.5 * (xv cm (3 * v2 + k) + xe k))) [0..<3] V)"

definition q10o2_val_ev_step :: "cs_cell_mesh_t \<Rightarrow> nat \<Rightarrow> ptr \<times> ptr \<Rightarrow> ptr \<times> ptr" where
  "q10o2_val_ev_step cm e WV =
     (let W = fst WV; V = snd WV;
          vol_e = Fin 0.1 * W (n_vc cm + e);
          v1 = e2v_ids cm (2 * e);
          v2 = e2v_ids cm (2 * e + 1);
          W1 = add_at W v1 (vol_e * W (2 * n_vc cm + 2 * e));
          W2 = add_at W1 v2 (vol_e * W1 (2 * n_vc cm + (2 * e + 1)))
      in (W2, fold (\<lambda>k V.
                let coord = center (edge cm e) k;
                    V1 = V(3 * e + k := coord)
                in V1(3 * (n_ec cm + e) + k := Fin 0.5 * (xc cm k + coord))) [0..<3] V))"

definition q10o2_val_ec_step :: "cs_cell_mesh_t \<Rightarrow> nat \<Rightarrow> ptr \<Rightarrow> ptr" where
  "q10o2_val_ec_step cm e W =
     (let val_e = Fin (- 0.05) * W (2 * n_vc cm + 2 * e)
                    + Fin 0.2 * W (2 * n_vc cm + (2 * e + 1));
          e_contrib = Fin 0.5 * W (n_vc cm + e) * val_e;
          v1 = e2v_ids cm (2 * e);
          v2 = e2v_ids cm (2 * e + 1);
          W1 = add_at W v1 e_contrib
      in add_at W1 v2 e_contrib)"

definition cs_source_term_dcsd_q10o2_by_analytic ::
  "'h cs_shared \<Rightarrow> ('f, 'h) cs_source_term_cellwise_t" where
  "cs_source_term_dcsd_q10o2_by_analytic sh source cm cb vals =
     (case source of
        None \<Rightarrow> (cb, vals)
      | Some st \<Rightarrow>
          let tcur = t_cur sh;
              ana = def_analytic st;
              val_c = analytic_at ana tcur (xc cm);
              W1 = call_analytic ana tcur (n_vc cm) (xv cm) (cb_values cb) (n_vc cm);
              V1 = fold (\<lambda>v V. fold (\<lambda>k V.
                      V(3 * v + k := Fin 0.5 * (xc cm k + xv cm (3 * v + k)))) [0..<3] V)
                     [0..<n_vc cm] (vectors cb);
              W2 = call_analytic ana tcur (n_vc cm) V1 W1 (2 * n_vc cm);
              W3 = fold (\<lambda>v W.
                      let val_v = Fin (- 0.05) * (val_c + W (n_vc cm + v))
                                    + Fin 0.2 * W (2 * n_vc cm + v)
                      in W(v := wvc cm v * vol_c cm * val_v)) [0..<n_vc cm] W2;
              W4 = fold (\<lambda>e W. W(n_vc cm + e := 0)) [0..<n_ec cm] W3;
              W5 = fold (q10o2_face_step sh ana cm) [0..<n_fc cm] W4;
              V2 = fold (q10o2_xev_step cm) [0..<n_ec cm] V1;
              W6 = call_analytic ana tcur (2 * n_ec cm) V2 W5 (2 * n_vc cm);
              WV = fold (q10o2_val_ev_step cm) [0..<n_ec cm] (W6, V2);
              W8 = call_analytic ana tcur (2 * n_ec cm) (snd WV) (fst WV) (2 * n_vc cm);
              W9 = fold (q10o2_val_ec_step cm) [0..<n_ec cm] W8
          in (cb\<lparr>cb_values := W9, vectors := snd WV\<rparr>,
              fold (\<lambda>v vs. add_at vs v (W9 v)) [0..<n_vc cm] vals))"

text \<open>The five-point rule; \<open>contrib\<close> is \<open>W\<close> at offset 0.\<close>

definition q5o3_sum :: "'h cs_shared \<Rightarrow> cs_analytic_func_t \<Rightarrow> ptr \<times> ptr \<Rightarrow> dbl" where
  "q5o3_sum sh ana gw =
     (let gauss_pts = fst gw; weights = snd gw;
          results = ana (t_cur sh) 5 gauss_pts
      in fold (\<lambda>p sum. sum + results p * weights p) [0..<5] 0)"

definition q5o3_edge_step ::
  "'h cs_shared \<Rightarrow> cs_analytic_func_t \<Rightarrow> cs_cell_mesh_t \<Rightarrow> ptr \<Rightarrow> nat \<Rightarrow> ptr \<Rightarrow> ptr" where
  "q5o3_edge_step sh ana cm xf i W =
     (let e = f2e_ids cm i;
          v1 = e2v_ids cm (2 * e);
          v2 = e2v_ids cm (2 * e + 1);
          xv1 = ptr_add (xv cm) (3 * v1);
          xv2 = ptr_add (xv cm) (3 * v2);
          tet_vol = Fin 0.5 * cs_math_voltet sh xv1 xv2 xf (xc cm);
          W1 = add_at W v1 (q5o3_sum sh ana
                 (cs_quadrature_tet_5pts sh xv1 (center (edge cm e)) xf (xc cm) tet_vol))
      in add_at W1 v2 (q5o3_sum sh ana
                 (cs_quadrature_tet_5pts sh xv2 (center (edge cm e)) xf (xc cm) tet_vol)))"

definition cs_source_term_dcsd_q5o3_by_analytic ::
  "'h cs_shared \<Rightarrow> ('f, 'h) cs_source_term_cellwise_t" where
  "cs_source_term_dcsd_q5o3_by_analytic sh source cm cb vals =
     (case source of
        None \<Rightarrow> (cb, vals)
      | Some st \<Rightarrow>
          let ana = def_analytic st;
              W1 = fold (\<lambda>v W. W(v := 0)) [0..<n_vc cm] (cb_values cb);
              W2 = fold (\<lambda>f W. fold (q5o3_edge_step sh ana cm (center (face cm f)))
                         [f2e_idx cm f..<f2e_idx cm (f + 1)] W) [0..<n_fc cm] W1
          in (cb\<lparr>cb_values := W2\<rparr>,
              fold (\<lambda>v vs. add_at vs v (W2 v)) [0..<n_vc cm] vals))"

definition cs_source_term_vcsp_by_value ::
  "'h cs_shared \<Rightarrow> ('f, 'h) cs_source_term_cellwise_t" where
  "cs_source_term_vcsp_by_value sh source cm cb vals =
     (case source of
        None \<Rightarrow> (cb, vals)
      | Some st \<Rightarrow>
          let pot_value = def_get_val st;
              W1 = fold (\<lambda>v W. W(v := pot_value)) [0..<n_vc cm] (cb_values cb);
              W2 = W1(n_vc cm := pot_value);
              W3 = cs_locmat_matvec sh (hdg cb) W2 0 (n_vc cm + 1)
          in (cb\<lparr>cb_values := W3\<rparr>,
              fold (\<lambda>v vs. add_at vs v (W3 (n_vc cm + 1 + v))) [0..<n_vc cm + 1] vals))"

definition cs_source_term_vcsp_by_analytic ::
  "'h cs_shared \<Rightarrow> ('f, 'h) cs_source_term_cellwise_t" where
  "cs_source_term_vcsp_by_analytic sh source cm cb vals =
     (case source of
        None \<Rightarrow> (cb, vals)
      | Some st \<Rightarrow>
          let tcur = t_cur sh;
              ana = def_analytic st;
              W1 = call_analytic ana tcur (n_vc cm) (xv cm) (cb_values cb) 0;
              W2 = call_analytic ana tcur 1 (xc cm) W1 (n_vc cm);
              W3 = cs_locmat_matvec sh (hdg cb) W2 0 (n_vc cm + 1)
          in (cb\<lparr>cb_values := W3\<rparr>,
              fold (\<lambda>v vs. add_at vs v (W3 (n_vc cm + 1 + v))) [0..<n_vc cm + 1] vals))"

section \<open>The mask of the cells\<close>

text \<open>
  \<open>cell_mask[i] |= mask\<close> (with \<open>msk\<close> for the value of \<open>mask\<close>) on the array of \<open>cs_mask_t\<close> that \<open>cs_source_term_init\<close>
  allocates: the list of its entries. The index is a \<open>cs_lnum_t\<close>, a signed integer; an
  index outside the array is a write that C leaves undefined.
\<close>

definition mask_or :: "'m::len word \<Rightarrow> 'm word list \<Rightarrow> int \<Rightarrow> 'm word list outcome" where
  "mask_or msk cell_mask i =
     (if 0 \<le> i \<and> nat i < length cell_mask
      then Return (cell_mask[nat i := cell_mask ! nat i OR msk])
      else Abnormal Out_of_bounds_write)"

fun mask_or_all :: "'m::len word \<Rightarrow> int list \<Rightarrow> 'm word list \<Rightarrow> 'm word list outcome" where
  "mask_or_all msk [] cell_mask = Return cell_mask"
| "mask_or_all msk (i # ids) cell_mask = bind (mask_or msk cell_mask i) (mask_or_all msk ids)"

text \<open>
  \<open>_set_mask\<close>. \<open>(1 << st_id)\<close> is converted to \<open>cs_mask_t\<close>, which keeps the low
  bits. The list of a location that is not the whole mesh is asserted to be non-NULL and
  read in any case.
\<close>

definition set_mask ::
  "'f::len word cs_header \<Rightarrow> 'h cs_shared \<Rightarrow> 'f word cs_source_term_t option \<Rightarrow> nat
     \<Rightarrow> 'm::len word list \<Rightarrow> 'm word list outcome" where
  "set_mask h sh st_opt st_id cell_mask =
     (case st_opt of
        None \<Rightarrow> Bft_error Empty_source_term
      | Some st \<Rightarrow>
          let mask = push_bit st_id 1
          in if flag st AND CS_FLAG_FULL_LOC h \<noteq> 0
             then mask_or_all mask (map int [0..<n_cells sh]) cell_mask
             else (case cs_mesh_location_get_elt_list sh (ml_id st) of
                     None \<Rightarrow> Abnormal (if NDEBUG h then Null_dereference else Assertion_failure)
                   | Some elt_ids \<Rightarrow> mask_or_all mask elt_ids cell_mask))"

section \<open>Destruction\<close>

text \<open>
  The heap is the set of the addresses of the allocated blocks. \<open>BFT_FREE\<close> does nothing
  on NULL and releases an allocated block; releasing anything else is undefined.
\<close>

definition BFT_FREE :: "nat set \<Rightarrow> nat option \<Rightarrow> nat set outcome" where
  "BFT_FREE heap p =
     (case p of
        None \<Rightarrow> Return heap
      | Some a \<Rightarrow> if a \<in> heap then Return (heap - {a}) else Abnormal Invalid_free)"

definition destroy_step ::
  "'f::len word cs_header \<Rightarrow> 'f word cs_source_term_t \<Rightarrow> nat set \<Rightarrow> nat set outcome" where
  "destroy_step h st heap =
     bind (BFT_FREE heap (name st)) (\<lambda>heap1.
       if array_desc_state st AND CS_FLAG_STATE_OWNER h \<noteq> 0
       then (if array st \<noteq> None then BFT_FREE heap1 (array st) else Return heap1)
       else Return heap1)"

function destroy_loop ::
  "'f::len word cs_header \<Rightarrow> nat \<Rightarrow> 'f word cs_source_term_t list \<Rightarrow> nat \<Rightarrow> nat set
     \<Rightarrow> nat set outcome" where
  "destroy_loop h n_source_terms source_terms st_id heap =
     (if st_id < n_source_terms then
        (if st_id < length source_terms
         then bind (destroy_step h (source_terms ! st_id) heap)
                (destroy_loop h n_source_terms source_terms (st_id + 1))
         else Abnormal Out_of_bounds_read)
      else Return heap)"
  by pat_completeness auto
termination
  by (relation "measure (\<lambda>(h, n, sts, st_id, heap). n - st_id)") auto

declare destroy_loop.simps [simp del]

text \<open>
  \<open>cs_source_term_destroy\<close>. The array of descriptors is NULL (\<open>None\<close>) or the address
  of its block with its entries. The result is the heap and the pointer returned.
\<close>

definition cs_source_term_destroy ::
  "'f::len word cs_header \<Rightarrow> nat \<Rightarrow> (nat \<times> 'f word cs_source_term_t list) option \<Rightarrow> nat set
     \<Rightarrow> (nat set \<times> (nat \<times> 'f word cs_source_term_t list) option) outcome" where
  "cs_source_term_destroy h n_source_terms source_terms heap =
     (case source_terms of
        None \<Rightarrow> Return (heap, source_terms)
      | Some (a, sts) \<Rightarrow>
          bind (destroy_loop h n_source_terms sts 0 heap) (\<lambda>heap1.
            bind (BFT_FREE heap1 (Some a)) (\<lambda>heap2. Return (heap2, None))))"

section \<open>Initialisation\<close>

text \<open>
  The \<open>switch\<close> of \<open>cs_source_term_init\<close> for one source term: the function stored in
  \<open>compute_source[st_id]\<close>, or the error raised.
\<close>

definition select_compute ::
  "'f::len word cs_header \<Rightarrow> 'h cs_shared \<Rightarrow> cs_space_scheme_t \<Rightarrow> 'f word cs_source_term_t
     \<Rightarrow> ('f word, 'h) cs_source_term_cellwise_t outcome" where
  "select_compute h sh space_scheme st =
     (case space_scheme of
        CS_SPACE_SCHEME_CDOVB \<Rightarrow>
          if flag st AND CS_FLAG_DUAL h \<noteq> 0 then
            (case def_type st of
               CS_PARAM_DEF_BY_VALUE \<Rightarrow> Return (cs_source_term_dcsd_by_value sh)
             | CS_PARAM_DEF_BY_ANALYTIC_FUNCTION \<Rightarrow>
                 (case quad_type st of
                    CS_QUADRATURE_BARY \<Rightarrow> Return (cs_source_term_dcsd_bary_by_analytic sh)
                  | CS_QUADRATURE_BARY_SUBDIV \<Rightarrow> Return (cs_source_term_dcsd_q1o1_by_analytic sh)
                  | CS_QUADRATURE_HIGHER \<Rightarrow> Return (cs_source_term_dcsd_q10o2_by_analytic sh)
                  | CS_QUADRATURE_HIGHEST \<Rightarrow> Return (cs_source_term_dcsd_q5o3_by_analytic sh)
                  | _ \<Rightarrow> Bft_error Invalid_quadrature)
             | _ \<Rightarrow> Bft_error Invalid_definition)
          else if \<not> NDEBUG h \<and> flag st AND CS_FLAG_PRIMAL h = 0 then Abnormal Assertion_failure
          else
            (case def_type st of
               CS_PARAM_DEF_BY_VALUE \<Rightarrow> Return (cs_source_term_pvsp_by_value sh)
             | CS_PARAM_DEF_BY_ANALYTIC_FUNCTION \<Rightarrow> Return (cs_source_term_pvsp_by_analytic sh)
             | _ \<Rightarrow> Bft_error Invalid_definition)
      | CS_SPACE_SCHEME_CDOVCB \<Rightarrow>
          if flag st AND CS_FLAG_DUAL h \<noteq> 0 then Bft_error Invalid_definition
          else if \<not> NDEBUG h \<and> flag st AND CS_FLAG_PRIMAL h = 0 then Abnormal Assertion_failure
          else
            (case def_type st of
               CS_PARAM_DEF_BY_VALUE \<Rightarrow> Return (cs_source_term_vcsp_by_value sh)
             | CS_PARAM_DEF_BY_ANALYTIC_FUNCTION \<Rightarrow> Return (cs_source_term_vcsp_by_analytic sh)
             | _ \<Rightarrow> Bft_error Invalid_definition)
      | _ \<Rightarrow> Bft_error Invalid_space_scheme)"

text \<open>
  The loop on the source terms. Its state is the array \<open>compute_source\<close>, the flag
  behind \<open>sys_flag\<close> and \<open>need_mask\<close>. The array \<open>source_terms\<close> is the
  list of its entries; reading an entry behind its end is an access that C leaves
  undefined.
\<close>

function init_loop ::
  "'f::len word cs_header \<Rightarrow> 'h cs_shared \<Rightarrow> cs_space_scheme_t \<Rightarrow> nat
     \<Rightarrow> 'f word cs_source_term_t list \<Rightarrow> nat
     \<Rightarrow> ('f word, 'h) cs_source_term_cellwise_t option list \<times> 'f word \<times> bool
     \<Rightarrow> (('f word, 'h) cs_source_term_cellwise_t option list \<times> 'f word \<times> bool) outcome" where
  "init_loop h sh space_scheme n_source_terms source_terms st_id s =
     (if st_id < n_source_terms then
        (if st_id < length source_terms then
           let st = source_terms ! st_id;
               compute_source = fst s;
               sys_flag = (if flag st AND CS_FLAG_PRIMAL h \<noteq> 0
                           then fst (snd s) OR (CS_FLAG_SYS_HLOC_CONF h OR CS_FLAG_SYS_SOURCES_HLOC h)
                           else fst (snd s));
               need_mask = (if flag st AND CS_FLAG_FULL_LOC h = 0 then True else snd (snd s))
           in bind (select_compute h sh space_scheme st) (\<lambda>compute.
                init_loop h sh space_scheme n_source_terms source_terms (st_id + 1)
                  (compute_source[st_id := Some compute], sys_flag, need_mask))
         else Abnormal Out_of_bounds_read)
      else Return s)"
  by pat_completeness auto
termination
  by (relation "measure (\<lambda>(h, sh, sc, n, sts, st_id, s). n - st_id)") auto

declare init_loop.simps [simp del]

function mask_loop ::
  "'f::len word cs_header \<Rightarrow> 'h cs_shared \<Rightarrow> nat \<Rightarrow> 'f word cs_source_term_t list \<Rightarrow> nat
     \<Rightarrow> 'm::len word list \<Rightarrow> 'm word list outcome" where
  "mask_loop h sh n_source_terms source_terms st_id cell_mask =
     (if st_id < n_source_terms then
        (if st_id < length source_terms
         then bind (set_mask h sh (Some (source_terms ! st_id)) st_id cell_mask)
                (mask_loop h sh n_source_terms source_terms (st_id + 1))
         else Abnormal Out_of_bounds_read)
      else Return cell_mask)"
  by pat_completeness auto
termination
  by (relation "measure (\<lambda>(h, sh, n, sts, st_id, mask). n - st_id)") auto

declare mask_loop.simps [simp del]

text \<open>
  \<open>cs_source_term_init\<close>. The result is the array \<open>compute_source\<close> (of
  \<open>CS_N_MAX_SOURCE_TERMS\<close> entries, \<open>None\<close> for NULL), the flag behind \<open>sys_flag\<close>
  and the pointer stored in \<open>*source_mask\<close> (\<open>None\<close> for NULL).
\<close>

definition cs_source_term_init ::
  "'f::len word cs_header \<Rightarrow> 'h cs_shared \<Rightarrow> cs_space_scheme_t \<Rightarrow> nat
     \<Rightarrow> 'f word cs_source_term_t list \<Rightarrow> 'f word
     \<Rightarrow> (('f word, 'h) cs_source_term_cellwise_t option list \<times> 'f word
          \<times> 'm::len word list option) outcome" where
  "cs_source_term_init h sh space_scheme n_source_terms source_terms sys_flag =
     (if n_source_terms > CS_N_MAX_SOURCE_TERMS h then Bft_error Limit_source_terms
      else
        let compute_source = replicate (CS_N_MAX_SOURCE_TERMS h) None
        in if n_source_terms = 0 then Return (compute_source, sys_flag, None)
           else
             bind (init_loop h sh space_scheme n_source_terms source_terms 0
                     (compute_source, sys_flag, False)) (\<lambda>s.
               if snd (snd s) then
                 bind (mask_loop h sh n_source_terms source_terms 0
                         (replicate (n_cells sh) 0)) (\<lambda>mask.
                   Return (fst s, fst (snd s), Some mask))
               else Return (fst s, fst (snd s), None)))"

section \<open>The contribution of the source terms in a cell\<close>

text \<open>
  The call \<open>compute(source_terms + st_id, cm, cb, csys->source)\<close> through the pointer
  \<open>compute_source[st_id]\<close>. The state is the builder and the array \<open>csys->source\<close>.
  In the loop with a mask, \<open>(1 << st_id)\<close> is converted to \<open>cs_mask_t\<close> as in
  \<open>_set_mask\<close>; after the initialisation \<open>st_id\<close> is below
  \<open>CS_N_MAX_SOURCE_TERMS\<close>, hence below the width of \<open>int\<close>.
\<close>

definition call_compute ::
  "'f cs_source_term_t list \<Rightarrow> cs_cell_mesh_t
     \<Rightarrow> ('f, 'h) cs_source_term_cellwise_t option list \<Rightarrow> nat
     \<Rightarrow> 'h cs_cell_builder_t \<times> ptr \<Rightarrow> ('h cs_cell_builder_t \<times> ptr) outcome" where
  "call_compute source_terms cm compute_source st_id s =
     (if st_id < length compute_source then
        (case compute_source ! st_id of
           None \<Rightarrow> Abnormal Null_call
         | Some compute \<Rightarrow>
             if st_id < length source_terms
             then Return (compute (Some (source_terms ! st_id)) cm (fst s) (snd s))
             else Abnormal Out_of_bounds_read)
      else Abnormal Out_of_bounds_read)"

function compute_all ::
  "nat \<Rightarrow> 'f cs_source_term_t list \<Rightarrow> cs_cell_mesh_t
     \<Rightarrow> ('f, 'h) cs_source_term_cellwise_t option list \<Rightarrow> nat
     \<Rightarrow> 'h cs_cell_builder_t \<times> ptr \<Rightarrow> ('h cs_cell_builder_t \<times> ptr) outcome" where
  "compute_all n_source_terms source_terms cm compute_source st_id s =
     (if st_id < n_source_terms
      then bind (call_compute source_terms cm compute_source st_id s)
             (compute_all n_source_terms source_terms cm compute_source (st_id + 1))
      else Return s)"
  by pat_completeness auto
termination
  by (relation "measure (\<lambda>(n, sts, cm, cs, st_id, s). n - st_id)") auto

declare compute_all.simps [simp del]

function compute_masked ::
  "nat \<Rightarrow> 'f cs_source_term_t list \<Rightarrow> cs_cell_mesh_t \<Rightarrow> 'm::len word list
     \<Rightarrow> ('f, 'h) cs_source_term_cellwise_t option list \<Rightarrow> nat
     \<Rightarrow> 'h cs_cell_builder_t \<times> ptr \<Rightarrow> ('h cs_cell_builder_t \<times> ptr) outcome" where
  "compute_masked n_source_terms source_terms cm source_mask compute_source st_id s =
     (if st_id < n_source_terms then
        (if c_id cm < length source_mask then
           let st_mask = push_bit st_id 1
           in if source_mask ! c_id cm AND st_mask \<noteq> 0
              then bind (call_compute source_terms cm compute_source st_id s)
                     (compute_masked n_source_terms source_terms cm source_mask compute_source
                        (st_id + 1))
              else compute_masked n_source_terms source_terms cm source_mask compute_source
                     (st_id + 1) s
         else Abnormal Out_of_bounds_read)
      else Return s)"
  by pat_completeness auto
termination
  by (relation "measure (\<lambda>(n, sts, cm, m, cs, st_id, s). n - st_id)") auto

declare compute_masked.simps [simp del]

definition cs_source_term_compute_cellwise ::
  "'f::len word cs_header \<Rightarrow> nat \<Rightarrow> 'f word cs_source_term_t list \<Rightarrow> cs_cell_mesh_t
     \<Rightarrow> 'f word \<Rightarrow> 'm::len word list option
     \<Rightarrow> ('f word, 'h) cs_source_term_cellwise_t option list
     \<Rightarrow> 'h cs_cell_builder_t \<Rightarrow> cs_cell_sys_t
     \<Rightarrow> ('h cs_cell_builder_t \<times> cs_cell_sys_t) outcome" where
  "cs_source_term_compute_cellwise h n_source_terms source_terms cm sys_flag source_mask
       compute_source cb csys =
     (let src0 = fold (\<lambda>i s. s(i := 0)) [0..<n_dofs csys] (csys_source csys)
      in if sys_flag AND CS_FLAG_SYS_SOURCETERM h = 0
         then Return (cb, csys\<lparr>csys_source := src0\<rparr>)
         else
           bind (case source_mask of
                   None \<Rightarrow> compute_all n_source_terms source_terms cm compute_source 0 (cb, src0)
                 | Some cell_mask \<Rightarrow>
                     compute_masked n_source_terms source_terms cm cell_mask compute_source 0
                       (cb, src0))
             (\<lambda>s. Return (fst s, csys\<lparr>csys_source := snd s\<rparr>)))"

section \<open>Concrete cells and source terms\<close>

text \<open>
  The inputs of the examples below. \<open>ptr_of_list\<close> is an array with the given entries
  (and zero behind them). \<open>ex_voltet\<close> is the volume of a tetrahedron from its four
  vertices, \<open>|((b - a) \<times> (c - a)) \<cdot> (d - a)| / 6\<close>.
\<close>

definition ptr_of_list :: "dbl list \<Rightarrow> ptr" where
  "ptr_of_list xs = (\<lambda>i. if i < length xs then xs ! i else 0)"

definition ex_voltet :: "ptr \<Rightarrow> ptr \<Rightarrow> ptr \<Rightarrow> ptr \<Rightarrow> dbl" where
  "ex_voltet a b c d =
     (let bx = b 0 - a 0; by = b 1 - a 1; bz = b 2 - a 2;
          cx = c 0 - a 0; cy = c 1 - a 1; cz = c 2 - a 2;
          dx = d 0 - a 0; dy = d 1 - a 1; dz = d 2 - a 2
      in Fin (1 / 6) * fabs ((by * cz - bz * cy) * dx + (bz * cx - bx * cz) * dy
                               + (bx * cy - by * cx) * dz))"

definition ex_shared :: "unit cs_shared" where
  "ex_shared = \<lparr> n_cells = 3, t_cur = 0,
     cs_mesh_location_get_elt_list = (\<lambda>ml. if ml = 1 then Some [0, 2] else
                                            if ml = 2 then Some [1, 5] else None),
     cs_math_voltet = ex_voltet,
     cs_quadrature_tet_5pts = (\<lambda>xv xe xf xc vol. (xc, (\<lambda>p. 0))),
     cs_locmat_matvec = (\<lambda>m W i j. W) \<rparr>"

text \<open>The tetrahedron with the vertices (0,0,0), (3,0,0), (0,3,0) and (0,0,3), of volume
  9/2, as cell 0; each vertex has a quarter of the volume.\<close>

definition ex_tet :: cs_cell_mesh_t where
  "ex_tet = \<lparr> c_id = 0,
     xc = ptr_of_list [Fin 0.75, Fin 0.75, Fin 0.75],
     vol_c = Fin 4.5,
     n_vc = 4,
     xv = ptr_of_list [Fin 0, Fin 0, Fin 0,  Fin 3, Fin 0, Fin 0,
                       Fin 0, Fin 3, Fin 0,  Fin 0, Fin 0, Fin 3],
     wvc = ptr_of_list [Fin 0.25, Fin 0.25, Fin 0.25, Fin 0.25],
     n_ec = 6,
     edge = (\<lambda>e. \<lparr> center = ptr_of_list
               ([[Fin 1.5, Fin 0, Fin 0], [Fin 0, Fin 1.5, Fin 0], [Fin 0, Fin 0, Fin 1.5],
                 [Fin 1.5, Fin 1.5, Fin 0], [Fin 1.5, Fin 0, Fin 1.5],
                 [Fin 0, Fin 1.5, Fin 1.5]] ! e) \<rparr>),
     e2v_ids = (\<lambda>i. [0, 1, 0, 2, 0, 3, 1, 2, 1, 3, 2, 3] ! i),
     n_fc = 4,
     face = (\<lambda>f. \<lparr> center = ptr_of_list
               ([[Fin 1, Fin 1, Fin 0], [Fin 1, Fin 0, Fin 1], [Fin 0, Fin 1, Fin 1],
                 [Fin 1, Fin 1, Fin 1]] ! f) \<rparr>),
     f2e_idx = (\<lambda>f. [0, 3, 6, 9, 12] ! f),
     f2e_ids = (\<lambda>i. [0, 1, 3, 0, 2, 4, 1, 2, 5, 3, 4, 5] ! i) \<rparr>"


text \<open>Header values, and dual source terms on the whole mesh (flags: full location and
  dual): the constant density 2, the analytic density 1, and the analytic density
  \<open>f(x, y, z) = x\<close>.\<close>

definition ex_header :: "16 word cs_header" where
  "ex_header = \<lparr> CS_N_MAX_SOURCE_TERMS = 8, CS_FLAG_FULL_LOC = 32, CS_FLAG_PRIMAL = 64,
     CS_FLAG_DUAL = 128, CS_FLAG_STATE_OWNER = 1024, CS_FLAG_SYS_SOURCETERM = 128,
     CS_FLAG_SYS_HLOC_CONF = 16, CS_FLAG_SYS_SOURCES_HLOC = 32, NDEBUG = True \<rparr>"

definition ex_st_value :: "16 word cs_source_term_t" where
  "ex_st_value = \<lparr> name = Some 100, ml_id = 0, flag = 32 OR 128,
     def_type = CS_PARAM_DEF_BY_VALUE, def_get_val = Fin 2,
     def_analytic = (\<lambda>t n xyz i. 0), quad_type = CS_QUADRATURE_BARY,
     array_desc_state = 0, array = None \<rparr>"

definition ex_st_one :: "16 word cs_source_term_t" where
  "ex_st_one = ex_st_value \<lparr> name := Some 101, def_type := CS_PARAM_DEF_BY_ANALYTIC_FUNCTION,
     def_get_val := 0, def_analytic := (\<lambda>t n xyz i. Fin 1) \<rparr>"


text \<open>Analytic terms on a part of the mesh: on the cells 0 and 2 (location 1), and on
  the list 1, 5 (location 2), which does not fit a mesh of three cells.\<close>

definition ex_st_subset :: "16 word cs_source_term_t" where
  "ex_st_subset = ex_st_one \<lparr> name := Some 103, ml_id := 1, flag := 128 \<rparr>"

definition ex_st_oob :: "16 word cs_source_term_t" where
  "ex_st_oob = ex_st_one \<lparr> name := Some 104, ml_id := 2, flag := 128 \<rparr>"


definition ex_cb :: "unit cs_cell_builder_t" where
  "ex_cb = \<lparr> hdg = (), cb_values = (\<lambda>i. 0), vectors = (\<lambda>i. 0) \<rparr>"

text \<open>A registry of two terms on the whole mesh with the functions that compute them, a
  mask of three cells for two terms, and the system of a cell with four degrees of
  freedom.\<close>

definition ex_registry :: "16 word cs_source_term_t list" where
  "ex_registry = [ex_st_value, ex_st_one]"

definition ex_compute_source :: "(16 word, unit) cs_source_term_cellwise_t option list" where
  "ex_compute_source =
     [Some (cs_source_term_dcsd_by_value ex_shared),
      Some (cs_source_term_dcsd_bary_by_analytic ex_shared),
      None, None, None, None, None, None]"

definition ex_registry_subset :: "16 word cs_source_term_t list" where
  "ex_registry_subset = [ex_st_value, ex_st_subset]"

text \<open>Two terms defined by arrays: the first owns its array (block 200), the second
  borrows the array of its caller (block 201).\<close>

definition ex_registry_arrays :: "16 word cs_source_term_t list" where
  "ex_registry_arrays =
     [ex_st_value \<lparr> name := Some 100, def_type := CS_PARAM_DEF_BY_ARRAY,
                    array_desc_state := 1024, array := Some 200 \<rparr>,
      ex_st_value \<lparr> name := Some 101, def_type := CS_PARAM_DEF_BY_ARRAY,
                    array_desc_state := 0, array := Some 201 \<rparr>]"

text \<open>The registry of two terms in the other order.\<close>

definition ex_registry_rev :: "16 word cs_source_term_t list" where
  "ex_registry_rev = [ex_st_one, ex_st_value]"

definition ex_compute_source_rev :: "(16 word, unit) cs_source_term_cellwise_t option list" where
  "ex_compute_source_rev =
     [Some (cs_source_term_dcsd_bary_by_analytic ex_shared),
      Some (cs_source_term_dcsd_by_value ex_shared),
      None, None, None, None, None, None]"

definition ex_mask :: "8 word list" where
  "ex_mask = [1, 3, 2]"

definition ex_full_mask :: "8 word list" where
  "ex_full_mask = [3, 3, 3]"

definition ex_csys :: cs_cell_sys_t where
  "ex_csys = \<lparr> n_dofs = 4, csys_source = (\<lambda>i. Fin 7) \<rparr>"

section \<open>Notions used in the statements\<close>

text \<open>A function on the array of values adds: each entry of its result is the entry
  before plus what the function yields on the array of zeros.\<close>

definition adds :: "(ptr \<Rightarrow> ptr) \<Rightarrow> bool" where
  "adds F = (\<forall>vals v. F vals v = vals v + F (\<lambda>v. 0) v)"

text \<open>
  A cellwise function accumulates: it leaves in the array of values each entry as it was
  plus its contribution, the contribution being what it yields on the array of zeros,
  and what it does to the builder does not depend on the array of values.
\<close>

definition accumulates :: "('f, 'h) cs_source_term_cellwise_t \<Rightarrow> bool" where
  "accumulates compute =
     (\<forall>source cm cb vals.
        compute source cm cb vals =
          (fst (compute source cm cb (\<lambda>i. 0)),
           (\<lambda>i. vals i + snd (compute source cm cb (\<lambda>i. 0)) i)))"

text \<open>
  The cellwise computation in the words of its specification: the buffer is reset to
  zero on the degrees of freedom of the cell; without the source-term bit in the flags
  of the system that is all; otherwise the terms selected by the mask (all of them
  without a mask, those whose bit is set for the cell with one) are taken in the order
  of their ids, and the contribution of each is added to the buffer. A NULL function for
  a selected term ends the run.
\<close>

definition term_selected :: "'m::len word list option \<Rightarrow> nat \<Rightarrow> nat \<Rightarrow> bool" where
  "term_selected source_mask c st_id =
     (case source_mask of None \<Rightarrow> True | Some cell_mask \<Rightarrow> bit (cell_mask ! c) st_id)"

fun accumulate_in_order ::
  "'f cs_source_term_t list \<Rightarrow> cs_cell_mesh_t
     \<Rightarrow> ('f, 'h) cs_source_term_cellwise_t option list \<Rightarrow> nat list
     \<Rightarrow> 'h cs_cell_builder_t \<times> ptr \<Rightarrow> ('h cs_cell_builder_t \<times> ptr) outcome" where
  "accumulate_in_order source_terms cm compute_source [] s = Return s"
| "accumulate_in_order source_terms cm compute_source (st_id # ids) s =
     (case compute_source ! st_id of
        None \<Rightarrow> Abnormal Null_call
      | Some compute \<Rightarrow>
          let r = compute (Some (source_terms ! st_id)) cm (fst s) (\<lambda>i. 0)
          in accumulate_in_order source_terms cm compute_source ids
               (fst r, (\<lambda>i. snd s i + snd r i)))"

definition compute_cellwise_spec ::
  "'f::len word cs_header \<Rightarrow> nat \<Rightarrow> 'f word cs_source_term_t list \<Rightarrow> cs_cell_mesh_t
     \<Rightarrow> 'f word \<Rightarrow> 'm::len word list option
     \<Rightarrow> ('f word, 'h) cs_source_term_cellwise_t option list
     \<Rightarrow> 'h cs_cell_builder_t \<Rightarrow> cs_cell_sys_t
     \<Rightarrow> ('h cs_cell_builder_t \<times> cs_cell_sys_t) outcome" where
  "compute_cellwise_spec h n_source_terms source_terms cm sys_flag source_mask
       compute_source cb csys =
     (let zeroed = (\<lambda>i. if i < n_dofs csys then 0 else csys_source csys i)
      in if sys_flag AND CS_FLAG_SYS_SOURCETERM h = 0
         then Return (cb, csys\<lparr>csys_source := zeroed\<rparr>)
         else bind (accumulate_in_order source_terms cm compute_source
                      (filter (term_selected source_mask (c_id cm)) [0..<n_source_terms])
                      (cb, zeroed))
                (\<lambda>s. Return (fst s, csys\<lparr>csys_source := snd s\<rparr>)))"

text \<open>The entry of the buffer of the system that a run returns, if it returns.\<close>

fun returned_source_at :: "('a \<times> cs_cell_sys_t) outcome \<Rightarrow> nat \<Rightarrow> dbl option" where
  "returned_source_at (Return r) i = Some (csys_source (snd r) i)"
| "returned_source_at (Bft_error e) i = None"
| "returned_source_at (Abnormal a) i = None"

text \<open>The calls of the loops of the cellwise computation, for a list of ids.\<close>

fun invoke_in_order ::
  "'f cs_source_term_t list \<Rightarrow> cs_cell_mesh_t
     \<Rightarrow> ('f, 'h) cs_source_term_cellwise_t option list \<Rightarrow> nat list
     \<Rightarrow> 'h cs_cell_builder_t \<times> ptr \<Rightarrow> ('h cs_cell_builder_t \<times> ptr) outcome" where
  "invoke_in_order source_terms cm compute_source [] s = Return s"
| "invoke_in_order source_terms cm compute_source (st_id # ids) s =
     bind (call_compute source_terms cm compute_source st_id s)
       (invoke_in_order source_terms cm compute_source ids)"

text \<open>
  The errors of \<open>cs_source_term_init\<close> that report a combination without an
  evaluator, and the combinations of scheme, support, definition and quadrature that
  have none: a scheme other than the vertex-based and the vertex+cell-based one, a dual
  (density) term in the vertex+cell-based scheme, a definition other than by value or by
  analytic function, and a quadrature outside the four known ones for a dual analytic
  term of the vertex-based scheme.
\<close>

fun unsupported_configuration :: "error \<Rightarrow> bool" where
  "unsupported_configuration Invalid_quadrature = True"
| "unsupported_configuration Invalid_definition = True"
| "unsupported_configuration Invalid_space_scheme = True"
| "unsupported_configuration _ = False"

fun recognised_definition :: "cs_param_def_type_t \<Rightarrow> bool" where
  "recognised_definition CS_PARAM_DEF_BY_VALUE = True"
| "recognised_definition CS_PARAM_DEF_BY_ANALYTIC_FUNCTION = True"
| "recognised_definition _ = False"

fun recognised_quadrature :: "cs_quadra_type_t \<Rightarrow> bool" where
  "recognised_quadrature (CS_QUADRATURE_OTHER k) = False"
| "recognised_quadrature _ = True"

definition is_dual :: "'f::len word cs_header \<Rightarrow> 'f word cs_source_term_t \<Rightarrow> bool" where
  "is_dual h st = (flag st AND CS_FLAG_DUAL h \<noteq> 0)"

definition is_primal :: "'f::len word cs_header \<Rightarrow> 'f word cs_source_term_t \<Rightarrow> bool" where
  "is_primal h st = (flag st AND CS_FLAG_PRIMAL h \<noteq> 0)"

definition is_full_loc :: "'f::len word cs_header \<Rightarrow> 'f word cs_source_term_t \<Rightarrow> bool" where
  "is_full_loc h st = (flag st AND CS_FLAG_FULL_LOC h \<noteq> 0)"

fun no_evaluator ::
  "'f::len word cs_header \<Rightarrow> cs_space_scheme_t \<Rightarrow> 'f word cs_source_term_t \<Rightarrow> bool" where
  "no_evaluator h CS_SPACE_SCHEME_CDOVB st =
     (if recognised_definition (def_type st)
      then is_dual h st \<and> def_type st = CS_PARAM_DEF_BY_ANALYTIC_FUNCTION
             \<and> \<not> recognised_quadrature (quad_type st)
      else True)"
| "no_evaluator h CS_SPACE_SCHEME_CDOVCB st =
     (if is_dual h st then True else \<not> recognised_definition (def_type st))"
| "no_evaluator h _ st = True"

text \<open>A term applies to a cell: it is defined on the whole mesh, or the list of its
  mesh location holds the cell.\<close>

definition term_applies ::
  "'f::len word cs_header \<Rightarrow> 'h cs_shared \<Rightarrow> 'f word cs_source_term_t \<Rightarrow> nat \<Rightarrow> bool" where
  "term_applies h sh st c =
     (if is_full_loc h st then True
      else (case cs_mesh_location_get_elt_list sh (ml_id st) of
              None \<Rightarrow> False
            | Some elt_ids \<Rightarrow> int c \<in> set elt_ids))"

text \<open>The blocks that the destruction of the terms releases: the name of each term,
  and the array of each term whose descriptor has the owner bit.\<close>

definition released :: "'f::len word cs_header \<Rightarrow> 'f word cs_source_term_t list \<Rightarrow> nat set" where
  "released h sts =
     (\<Union>st \<in> set sts. set_option (name st)
        \<union> (if array_desc_state st AND CS_FLAG_STATE_OWNER h \<noteq> 0
           then set_option (array st) else {}))"

section \<open>Loops that update an array\<close>

lemma fold_upd_upt:
  "fold (\<lambda>v vs. vs(v := g v)) [0..<n] vals = (\<lambda>v. if v < n then g v else vals v)"
  by (induction n) (auto simp: fun_eq_iff)

lemma fold_add_at_upt:
  "fold (\<lambda>v vs. add_at vs v (g v)) [0..<n] vals = (\<lambda>v. if v < n then vals v + g v else vals v)"
  by (induction n) (auto simp: fun_eq_iff add_at_def)

section \<open>The evaluators on a NULL source term\<close>

text \<open>
  C10. Each of the nine cellwise evaluators, called with a NULL source term, returns at
  once: it raises nothing and leaves the builder (its scratch arrays) and the array of
  values as they were.
\<close>

theorem null_source_is_noop:
  "cs_source_term_pvsp_by_value sh None cm cb vals = (cb, vals)
   \<and> cs_source_term_pvsp_by_analytic sh None cm cb vals = (cb, vals)
   \<and> cs_source_term_dcsd_by_value sh None cm cb vals = (cb, vals)
   \<and> cs_source_term_dcsd_bary_by_analytic sh None cm cb vals = (cb, vals)
   \<and> cs_source_term_dcsd_q1o1_by_analytic sh None cm cb vals = (cb, vals)
   \<and> cs_source_term_dcsd_q10o2_by_analytic sh None cm cb vals = (cb, vals)
   \<and> cs_source_term_dcsd_q5o3_by_analytic sh None cm cb vals = (cb, vals)
   \<and> cs_source_term_vcsp_by_value sh None cm cb vals = (cb, vals)
   \<and> cs_source_term_vcsp_by_analytic sh None cm cb vals = (cb, vals)"
  by (simp add: cs_source_term_pvsp_by_value_def cs_source_term_pvsp_by_analytic_def
      cs_source_term_dcsd_by_value_def cs_source_term_dcsd_bary_by_analytic_def
      cs_source_term_dcsd_q1o1_by_analytic_def cs_source_term_dcsd_q10o2_by_analytic_def
      cs_source_term_dcsd_q5o3_by_analytic_def cs_source_term_vcsp_by_value_def
      cs_source_term_vcsp_by_analytic_def)

section \<open>The density evaluator by value\<close>

lemma dcsd_by_value_values:
  "snd (cs_source_term_dcsd_by_value sh (Some st) cm cb vals) =
     (\<lambda>v. if v < n_vc cm then vals v + def_get_val st * wvc cm v else vals v)"
  by (simp add: cs_source_term_dcsd_by_value_def fold_add_at_upt)

text \<open>
  C2. On the tetrahedron of volume 9/2 with the constant density 2 and a buffer of zeros,
  the evaluator adds \<open>2 * 1/4 = 1/2\<close> at each vertex, which is the value times the weight
  of the vertex without the volume of the cell, and 2 in total; the value times the
  weight times the volume is 9/4, and the value times the volume is 9.
\<close>

theorem dcsd_by_value_misses_cell_volume:
  "snd (cs_source_term_dcsd_by_value ex_shared (Some ex_st_value) ex_tet ex_cb (\<lambda>v. 0)) 0 = Fin 0.5
   \<and> def_get_val ex_st_value * wvc ex_tet 0 * vol_c ex_tet = Fin 2.25
   \<and> (\<Sum>v < n_vc ex_tet.
         snd (cs_source_term_dcsd_by_value ex_shared (Some ex_st_value) ex_tet ex_cb (\<lambda>v. 0)) v)
       = Fin 2
   \<and> def_get_val ex_st_value * vol_c ex_tet = Fin 9"
  by (simp add: dcsd_by_value_values ex_tet_def ex_st_value_def ptr_of_list_def zero_dbl_def
      lessThan_nat_numeral lessThan_Suc)

section \<open>Adding to the buffer\<close>

lemma adds_add_at: "adds (\<lambda>vals. add_at vals i x)"
  by (simp add: adds_def add_at_def)

lemma adds_comp: "adds F \<Longrightarrow> adds G \<Longrightarrow> adds (\<lambda>vals. G (F vals))"
  unfolding adds_def by (metis add.assoc)

lemma adds_add_at_after: "adds F \<Longrightarrow> adds (\<lambda>vals. add_at (F vals) i x)"
  by (rule adds_comp [where G = "\<lambda>vals. add_at vals i x"]) (simp_all add: adds_add_at)

lemma adds_fold: "(\<And>x. x \<in> set xs \<Longrightarrow> adds (f x)) \<Longrightarrow> adds (fold f xs)"
proof (induction xs)
  case Nil
  show ?case by (simp add: id_def adds_def)
next
  case (Cons x xs)
  have "adds (\<lambda>vals. fold f xs (f x vals))"
    by (rule adds_comp) (simp_all add: Cons)
  then show ?case by simp
qed

lemma adds_q1o1_edge_step: "adds (q1o1_edge_step sh ana cm xf xfc i)"
proof -
  have "adds (\<lambda>vals. add_at (add_at vals a x) b y)" for a b x y
    by (intro adds_add_at_after adds_add_at)
  then show ?thesis
    by (simp add: q1o1_edge_step_def [abs_def] Let_def)
qed

text \<open>Eight of the nine evaluators add their contribution to the array of values.\<close>

lemma evaluators_add:
  "adds (\<lambda>vals. snd (cs_source_term_pvsp_by_value sh (Some st) cm cb vals))"
  "adds (\<lambda>vals. snd (cs_source_term_pvsp_by_analytic sh (Some st) cm cb vals))"
  "adds (\<lambda>vals. snd (cs_source_term_dcsd_by_value sh (Some st) cm cb vals))"
  "adds (\<lambda>vals. snd (cs_source_term_dcsd_q1o1_by_analytic sh (Some st) cm cb vals))"
  "adds (\<lambda>vals. snd (cs_source_term_dcsd_q10o2_by_analytic sh (Some st) cm cb vals))"
  "adds (\<lambda>vals. snd (cs_source_term_dcsd_q5o3_by_analytic sh (Some st) cm cb vals))"
  "adds (\<lambda>vals. snd (cs_source_term_vcsp_by_value sh (Some st) cm cb vals))"
  "adds (\<lambda>vals. snd (cs_source_term_vcsp_by_analytic sh (Some st) cm cb vals))"
  by (simp_all add: cs_source_term_pvsp_by_value_def cs_source_term_pvsp_by_analytic_def
      cs_source_term_dcsd_by_value_def cs_source_term_dcsd_q1o1_by_analytic_def
      cs_source_term_dcsd_q10o2_by_analytic_def cs_source_term_dcsd_q5o3_by_analytic_def
      cs_source_term_vcsp_by_value_def cs_source_term_vcsp_by_analytic_def
      Let_def adds_fold adds_add_at adds_add_at_after adds_q1o1_edge_step)

text \<open>The barycentric evaluator stores its contribution: the entry of a vertex of the
  cell does not depend on what the array held.\<close>

lemma dcsd_bary_values:
  "snd (cs_source_term_dcsd_bary_by_analytic sh (Some st) cm cb vals) v =
     (if v < n_vc cm
      then vol_c cm * wvc cm v
             * cb_values (fst (cs_source_term_dcsd_bary_by_analytic sh (Some st) cm cb vals)) v
      else vals v)"
  by (cases "v < n_vc cm")
     (simp_all add: cs_source_term_dcsd_bary_by_analytic_def Let_def fold_upd_upt)

lemma dcsd_bary_scratch:
  "fst (cs_source_term_dcsd_bary_by_analytic sh (Some st) cm cb vals) =
   fst (cs_source_term_dcsd_bary_by_analytic sh (Some st) cm cb vals')"
  by (simp add: cs_source_term_dcsd_bary_by_analytic_def Let_def)

lemma dcsd_bary_result:
  "v < n_vc cm \<Longrightarrow>
   cb_values (fst (cs_source_term_dcsd_bary_by_analytic sh (Some st) cm cb vals)) v =
     def_analytic st (t_cur sh) (n_vc cm)
       (vectors (fst (cs_source_term_dcsd_bary_by_analytic sh (Some st) cm cb vals))) v"
  by (simp add: cs_source_term_dcsd_bary_by_analytic_def Let_def call_analytic_def)

lemma dcsd_bary_discards:
  "v < n_vc cm \<Longrightarrow>
   snd (cs_source_term_dcsd_bary_by_analytic sh (Some st) cm cb vals) v =
   snd (cs_source_term_dcsd_bary_by_analytic sh (Some st) cm cb (\<lambda>v. 0)) v"
  using dcsd_bary_scratch [of sh st cm cb vals "\<lambda>v. 0"] by (simp add: dcsd_bary_values)

text \<open>
  C1. On the tetrahedron of volume 9/2 with the analytic density 1, the barycentric
  evaluator leaves \<open>4.5 * 0.25 * 1 = 1.125\<close> at vertex 0 whether the buffer held 1 or 0
  there: the value 1 that the buffer held is discarded, where adding gives 2.125.
\<close>

theorem dcsd_bary_overwrites_buffer:
  "snd (cs_source_term_dcsd_bary_by_analytic ex_shared (Some ex_st_one) ex_tet ex_cb (\<lambda>v. Fin 1)) 0
     = Fin 1.125
   \<and> snd (cs_source_term_dcsd_bary_by_analytic ex_shared (Some ex_st_one) ex_tet ex_cb (\<lambda>v. 0)) 0
     = Fin 1.125
   \<and> (\<lambda>v. Fin 1) 0
       + snd (cs_source_term_dcsd_bary_by_analytic ex_shared (Some ex_st_one) ex_tet ex_cb (\<lambda>v. 0)) 0
     = Fin 2.125"
  by (simp add: dcsd_bary_values dcsd_bary_result)
     (simp add: ex_tet_def ex_st_one_def ptr_of_list_def)

section \<open>The cellwise computation\<close>

lemma compute_all_eq:
  "compute_all n sts cm cs i s = invoke_in_order sts cm cs [i..<n] s"
proof (induction n sts cm cs i s rule: compute_all.induct)
  case (1 n sts cm cs i s)
  show ?case
  proof (cases "i < n")
    case True
    have "compute_all n sts cm cs i s
          = bind (call_compute sts cm cs i s) (compute_all n sts cm cs (i + 1))"
      using True by (subst compute_all.simps) simp
    also have "\<dots> = bind (call_compute sts cm cs i s) (invoke_in_order sts cm cs [i + 1..<n])"
      using 1 True by (cases "call_compute sts cm cs i s") simp_all
    finally show ?thesis using True by (simp add: upt_conv_Cons)
  next
    case False
    then show ?thesis by (subst compute_all.simps) simp
  qed
qed

lemma compute_masked_eq:
  "c_id cm < length cell_mask \<Longrightarrow>
   compute_masked n sts cm cell_mask cs i s =
     invoke_in_order sts cm cs (filter (\<lambda>j. bit (cell_mask ! c_id cm) j) [i..<n]) s"
proof (induction n sts cm cell_mask cs i s rule: compute_masked.induct)
  case (1 n sts cm cell_mask cs i s)
  show ?case
  proof (cases "i < n")
    case True
    note lt = this
    show ?thesis
    proof (cases "bit (cell_mask ! c_id cm) i")
      case True
      have "compute_masked n sts cm cell_mask cs i s
            = bind (call_compute sts cm cs i s) (compute_masked n sts cm cell_mask cs (i + 1))"
        using True lt 1(3) by (subst compute_masked.simps) (simp add: and_exp_eq_0_iff_not_bit)
      also have "\<dots> = bind (call_compute sts cm cs i s)
           (invoke_in_order sts cm cs (filter (\<lambda>j. bit (cell_mask ! c_id cm) j) [i + 1..<n]))"
        using 1(1) [OF lt 1(3) refl] True 1(3)
        by (cases "call_compute sts cm cs i s") (simp_all add: and_exp_eq_0_iff_not_bit)
      finally show ?thesis using True lt by (simp add: upt_conv_Cons)
    next
      case False
      have "compute_masked n sts cm cell_mask cs i s
            = compute_masked n sts cm cell_mask cs (i + 1) s"
        using False lt 1(3) by (subst compute_masked.simps) (simp add: and_exp_eq_0_iff_not_bit)
      also have "\<dots> = invoke_in_order sts cm cs
                         (filter (\<lambda>j. bit (cell_mask ! c_id cm) j) [i + 1..<n]) s"
        using 1(2) [OF lt 1(3) refl] False 1(3) by (simp add: and_exp_eq_0_iff_not_bit)
      finally show ?thesis using False lt by (simp add: upt_conv_Cons)
    qed
  next
    case False
    then show ?thesis by (subst compute_masked.simps) simp
  qed
qed

lemma term_selected_simps:
  "term_selected None c = (\<lambda>st_id. True)"
  "term_selected (Some cell_mask) c = bit (cell_mask ! c)"
  by (simp_all add: fun_eq_iff term_selected_def)

text \<open>Eight of the nine evaluators accumulate.\<close>

lemma accumulatesI:
  assumes "\<And>cm cb vals. compute None cm cb vals = (cb, vals)"
    and "\<And>st cm cb vals.
           fst (compute (Some st) cm cb vals) = fst (compute (Some st) cm cb (\<lambda>i. 0))"
    and "\<And>st cm cb. adds (\<lambda>vals. snd (compute (Some st) cm cb vals))"
  shows "accumulates compute"
  unfolding accumulates_def
proof (intro allI)
  fix source cm cb vals
  show "compute source cm cb vals =
          (fst (compute source cm cb (\<lambda>i. 0)),
           (\<lambda>i. vals i + snd (compute source cm cb (\<lambda>i. 0)) i))"
  proof (cases source)
    case None
    then show ?thesis by (simp add: assms(1))
  next
    case (Some st)
    have "snd (compute (Some st) cm cb vals) i =
            vals i + snd (compute (Some st) cm cb (\<lambda>i. 0)) i" for i
      using assms(3) [of st cm cb] unfolding adds_def by blast
    then have "snd (compute (Some st) cm cb vals) =
            (\<lambda>i. vals i + snd (compute (Some st) cm cb (\<lambda>i. 0)) i)"
      by (intro ext)
    with assms(2) [of st cm cb vals] Some show ?thesis
      by (simp add: prod_eq_iff)
  qed
qed

lemma evaluators_accumulate:
  "accumulates (cs_source_term_pvsp_by_value sh)"
  "accumulates (cs_source_term_pvsp_by_analytic sh)"
  "accumulates (cs_source_term_dcsd_by_value sh)"
  "accumulates (cs_source_term_dcsd_q1o1_by_analytic sh)"
  "accumulates (cs_source_term_dcsd_q10o2_by_analytic sh)"
  "accumulates (cs_source_term_dcsd_q5o3_by_analytic sh)"
  "accumulates (cs_source_term_vcsp_by_value sh)"
  "accumulates (cs_source_term_vcsp_by_analytic sh)"
proof -
  show "accumulates (cs_source_term_pvsp_by_value sh)"
    by (rule accumulatesI)
       (simp_all add: evaluators_add, simp_all add: cs_source_term_pvsp_by_value_def Let_def)
  show "accumulates (cs_source_term_pvsp_by_analytic sh)"
    by (rule accumulatesI)
       (simp_all add: evaluators_add, simp_all add: cs_source_term_pvsp_by_analytic_def Let_def)
  show "accumulates (cs_source_term_dcsd_by_value sh)"
    by (rule accumulatesI)
       (simp_all add: evaluators_add, simp_all add: cs_source_term_dcsd_by_value_def Let_def)
  show "accumulates (cs_source_term_dcsd_q1o1_by_analytic sh)"
    by (rule accumulatesI)
       (simp_all add: evaluators_add,
        simp_all add: cs_source_term_dcsd_q1o1_by_analytic_def Let_def)
  show "accumulates (cs_source_term_dcsd_q10o2_by_analytic sh)"
    by (rule accumulatesI)
       (simp_all add: evaluators_add,
        simp_all add: cs_source_term_dcsd_q10o2_by_analytic_def Let_def)
  show "accumulates (cs_source_term_dcsd_q5o3_by_analytic sh)"
    by (rule accumulatesI)
       (simp_all add: evaluators_add,
        simp_all add: cs_source_term_dcsd_q5o3_by_analytic_def Let_def)
  show "accumulates (cs_source_term_vcsp_by_value sh)"
    by (rule accumulatesI)
       (simp_all add: evaluators_add, simp_all add: cs_source_term_vcsp_by_value_def Let_def)
  show "accumulates (cs_source_term_vcsp_by_analytic sh)"
    by (rule accumulatesI)
       (simp_all add: evaluators_add, simp_all add: cs_source_term_vcsp_by_analytic_def Let_def)
qed

text \<open>
  When the registry and the array of functions hold the terms, the mask, if there is
  one, has a word for the cell, and every function of the array accumulates, the
  cellwise computation is the one of its specification.
\<close>

lemma invoke_eq_accumulate:
  assumes "\<forall>i \<in> set ids. i < length cs \<and> i < length sts
             \<and> (\<forall>f. cs ! i = Some f \<longrightarrow> accumulates f)"
  shows "invoke_in_order sts cm cs ids s = accumulate_in_order sts cm cs ids s"
  using assms
proof (induction ids arbitrary: s)
  case Nil
  show ?case by simp
next
  case (Cons i ids)
  show ?case
  proof (cases "cs ! i")
    case None
    with Cons.prems show ?thesis by (simp add: call_compute_def)
  next
    case (Some f)
    with Cons.prems have "accumulates f" by simp
    then have "f (Some (sts ! i)) cm (fst s) (snd s) =
        (fst (f (Some (sts ! i)) cm (fst s) (\<lambda>i. 0)),
         (\<lambda>j. snd s j + snd (f (Some (sts ! i)) cm (fst s) (\<lambda>i. 0)) j))"
      unfolding accumulates_def by blast
    with Some Cons show ?thesis by (simp add: call_compute_def Let_def)
  qed
qed

lemma compute_cellwise_accumulates:
  assumes "\<forall>cell_mask. source_mask = Some cell_mask \<longrightarrow> c_id cm < length cell_mask"
    and "n \<le> length cs" and "n \<le> length sts"
    and "\<forall>i<n. \<forall>f. cs ! i = Some f \<longrightarrow> accumulates f"
  shows "cs_source_term_compute_cellwise h n sts cm sys_flag source_mask cs cb csys
         = compute_cellwise_spec h n sts cm sys_flag source_mask cs cb csys"
proof -
  have ids: "\<forall>i \<in> set (filter P [0..<n]). i < length cs \<and> i < length sts
               \<and> (\<forall>f. cs ! i = Some f \<longrightarrow> accumulates f)" for P
    using assms(2-4) by auto
  show ?thesis
  proof (cases source_mask)
    case None
    then show ?thesis
      using invoke_eq_accumulate [OF ids [of "\<lambda>i. True"]]
      by (simp add: cs_source_term_compute_cellwise_def compute_cellwise_spec_def Let_def
          compute_all_eq fold_upd_upt term_selected_simps)
  next
    case (Some cell_mask)
    with assms(1) have "c_id cm < length cell_mask" by simp
    then show ?thesis
      using Some invoke_eq_accumulate [OF ids [of "bit (cell_mask ! c_id cm)"]]
      by (simp add: cs_source_term_compute_cellwise_def compute_cellwise_spec_def Let_def
          compute_masked_eq fold_upd_upt term_selected_simps)
  qed
qed

text \<open>
  C5. On the tetrahedron of volume 9/2, with the constant density 2 as term 0 and the
  analytic density 1 under the barycentric rule as term 1, both on the whole mesh: the
  cellwise computation resets the buffer and calls both terms in the order of their
  ids, but leaves \<open>1.125\<close> at vertex 0, the contribution of term 1 alone, where
  accumulating the contributions \<open>0.5\<close> and \<open>1.125\<close> gives \<open>1.625\<close>; with the two
  terms in the other order it leaves \<open>1.625\<close>.
\<close>

theorem compute_cellwise_loses_contribution:
  "returned_source_at
     (cs_source_term_compute_cellwise ex_header 2 ex_registry ex_tet 128
        (None :: 8 word list option) ex_compute_source ex_cb ex_csys) 0 = Some (Fin 1.125)
   \<and> returned_source_at
       (compute_cellwise_spec ex_header 2 ex_registry ex_tet 128
          (None :: 8 word list option) ex_compute_source ex_cb ex_csys) 0 = Some (Fin 1.625)
   \<and> returned_source_at
       (cs_source_term_compute_cellwise ex_header 2 ex_registry_rev ex_tet 128
          (None :: 8 word list option) ex_compute_source_rev ex_cb ex_csys) 0
       = Some (Fin 1.625)"
proof -
  have n: "(0::nat) < n_vc ex_tet" "n_vc ex_tet = 4" "vol_c ex_tet = Fin 4.5"
    "wvc ex_tet 0 = Fin 0.25"
    by (simp_all add: ex_tet_def ptr_of_list_def)
  have one: "def_analytic ex_st_one t k xyz i = Fin 1" for t k xyz i
    by (simp add: ex_st_one_def)
  have two: "def_get_val ex_st_value = Fin 2"
    by (simp add: ex_st_value_def)
  have flag: "(128 :: 16 word) AND CS_FLAG_SYS_SOURCETERM ex_header \<noteq> 0"
    by (simp add: ex_header_def)
  have ids: "[0..<2] = [0, 1]"
    by (simp add: upt_rec)
  show ?thesis
    using flag
    by (simp add: cs_source_term_compute_cellwise_def compute_cellwise_spec_def Let_def
        compute_all_eq term_selected_simps ids call_compute_def ex_registry_def
        ex_registry_rev_def ex_compute_source_def ex_compute_source_rev_def ex_csys_def
        dcsd_bary_values dcsd_bary_result dcsd_by_value_values n one two zero_dbl_def)
qed

section \<open>Initialisation: the functions and the mask\<close>

lemma init_loop_unfold:
  "init_loop h sh sc n sts i s =
     (if i < n then
        (if i < length sts then
           bind (select_compute h sh sc (sts ! i)) (\<lambda>f.
             init_loop h sh sc n sts (Suc i)
               ((fst s)[i := Some f],
                (if is_primal h (sts ! i)
                 then fst (snd s) OR (CS_FLAG_SYS_HLOC_CONF h OR CS_FLAG_SYS_SOURCES_HLOC h)
                 else fst (snd s)),
                (\<not> is_full_loc h (sts ! i) \<or> snd (snd s))))
         else Abnormal Out_of_bounds_read)
      else Return s)"
  by (subst init_loop.simps) (simp add: Let_def is_primal_def is_full_loc_def)

lemma bind_eq_Return:
  "bind m f = Return y \<longleftrightarrow> (\<exists>x. m = Return x \<and> f x = Return y)"
  by (cases m) simp_all

lemma init_loop_Return:
  "init_loop h sh sc n sts i s = Return s' \<Longrightarrow>
     length (fst s') = length (fst s)
     \<and> (i < n \<longrightarrow> n \<le> length sts)
     \<and> (\<forall>j. j < i \<longrightarrow> fst s' ! j = fst s ! j)
     \<and> (\<forall>j. i \<le> j \<and> j < n \<and> j < length (fst s) \<longrightarrow> fst s' ! j \<noteq> None)
     \<and> (\<forall>j. i \<le> j \<and> j < n \<longrightarrow> (\<exists>f. select_compute h sh sc (sts ! j) = Return f))
     \<and> snd (snd s') = (snd (snd s) \<or> (\<exists>j. i \<le> j \<and> j < n \<and> \<not> is_full_loc h (sts ! j)))"
proof (induction "n - i" arbitrary: i s)
  case 0
  then show ?case by (subst (asm) init_loop_unfold) auto
next
  case (Suc k)
  then have lt: "i < n" by simp
  from Suc.prems lt have len: "i < length sts"
    by (subst (asm) init_loop_unfold) (simp split: if_splits)
  let ?s1 = "\<lambda>f. ((fst s)[i := Some f],
      (if is_primal h (sts ! i)
       then fst (snd s) OR (CS_FLAG_SYS_HLOC_CONF h OR CS_FLAG_SYS_SOURCES_HLOC h)
       else fst (snd s)),
      (\<not> is_full_loc h (sts ! i) \<or> snd (snd s)))"
  from Suc.prems lt len obtain f where
    f: "select_compute h sh sc (sts ! i) = Return f"
    and step: "init_loop h sh sc n sts (Suc i) (?s1 f) = Return s'"
    by (subst (asm) init_loop_unfold) (auto simp: bind_eq_Return)
  have k: "k = n - Suc i" using Suc.hyps(2) by simp
  note IH = Suc.hyps(1) [OF k step]
  have l: "length (fst s') = length (fst s)" using IH by simp
  have n: "n \<le> length sts" using IH len by (cases "Suc i < n") auto
  have old: "fst s' ! j = fst s ! j" if "j < i" for j
    using IH that by simp
  have new: "fst s' ! j \<noteq> None" if "i \<le> j" "j < n" "j < length (fst s)" for j
  proof (cases "j = i")
    case True
    have "fst s' ! i = fst (?s1 f) ! i" using IH by simp
    then show ?thesis using True that by simp
  next
    case False
    then show ?thesis using IH that by simp
  qed
  have sel: "\<exists>g. select_compute h sh sc (sts ! j) = Return g" if "i \<le> j" "j < n" for j
    using IH that f by (cases "j = i") auto
  have nm: "snd (snd s') = (snd (snd s) \<or> (\<exists>j. i \<le> j \<and> j < n \<and> \<not> is_full_loc h (sts ! j)))"
  proof -
    have "snd (snd s') = (snd (snd (?s1 f))
            \<or> (\<exists>j. Suc i \<le> j \<and> j < n \<and> \<not> is_full_loc h (sts ! j)))"
      using IH by blast
    also have "\<dots> = (snd (snd s) \<or> (\<exists>j. i \<le> j \<and> j < n \<and> \<not> is_full_loc h (sts ! j)))"
    proof -
      have "(\<exists>j. i \<le> j \<and> j < n \<and> \<not> is_full_loc h (sts ! j))
            \<longleftrightarrow> \<not> is_full_loc h (sts ! i)
                 \<or> (\<exists>j. Suc i \<le> j \<and> j < n \<and> \<not> is_full_loc h (sts ! j))"
      proof
        assume "\<exists>j. i \<le> j \<and> j < n \<and> \<not> is_full_loc h (sts ! j)"
        then obtain j where j: "i \<le> j" "j < n" "\<not> is_full_loc h (sts ! j)" by blast
        show "\<not> is_full_loc h (sts ! i)
                 \<or> (\<exists>j. Suc i \<le> j \<and> j < n \<and> \<not> is_full_loc h (sts ! j))"
        proof (cases "j = i")
          case True
          with j show ?thesis by simp
        next
          case False
          with j have "Suc i \<le> j" by simp
          with j show ?thesis by blast
        qed
      next
        assume "\<not> is_full_loc h (sts ! i)
                 \<or> (\<exists>j. Suc i \<le> j \<and> j < n \<and> \<not> is_full_loc h (sts ! j))"
        then show "\<exists>j. i \<le> j \<and> j < n \<and> \<not> is_full_loc h (sts ! j)"
          using lt Suc_leD by blast
      qed
      then show ?thesis by auto
    qed
    finally show ?thesis .
  qed
  show ?case using l n old new sel nm by blast
qed

lemma init_loop_returns:
  "n \<le> length sts \<Longrightarrow>
   (\<And>j. i \<le> j \<Longrightarrow> j < n \<Longrightarrow> \<exists>f. select_compute h sh sc (sts ! j) = Return f) \<Longrightarrow>
   \<exists>s'. init_loop h sh sc n sts i s = Return s'"
proof (induction "n - i" arbitrary: i s)
  case 0
  then have "init_loop h sh sc n sts i s = Return s"
    by (subst init_loop_unfold) simp
  then show ?case by blast
next
  case (Suc k)
  then have lt: "i < n" by simp
  then obtain f where f: "select_compute h sh sc (sts ! i) = Return f"
    using Suc.prems(2) [of i] by auto
  have k: "k = n - Suc i" using Suc.hyps(2) by simp
  show ?case
    using Suc.hyps(1) [OF k Suc.prems(1)] Suc.prems(2) lt Suc.prems(1) f
    by (subst init_loop_unfold) simp
qed


lemma select_compute_cases:
  assumes "NDEBUG h \<or> is_dual h st \<or> is_primal h st"
  shows "if no_evaluator h sc st
         then \<exists>e. select_compute h sh sc st = Bft_error e \<and> unsupported_configuration e
         else \<exists>f. select_compute h sh sc st = Return f"
proof (cases sc)
  case CS_SPACE_SCHEME_CDOVB
  then show ?thesis using assms
    by (cases "def_type st"; cases "quad_type st")
       (auto simp: select_compute_def is_dual_def is_primal_def)
next
  case CS_SPACE_SCHEME_CDOVCB
  then show ?thesis using assms
    by (cases "def_type st") (auto simp: select_compute_def is_dual_def is_primal_def)
qed (simp_all add: select_compute_def)

lemma init_loop_unsupported:
  "n \<le> length sts \<Longrightarrow>
   (\<And>j. i \<le> j \<Longrightarrow> j < n \<Longrightarrow> NDEBUG h \<or> is_dual h (sts ! j) \<or> is_primal h (sts ! j)) \<Longrightarrow>
   \<exists>j. i \<le> j \<and> j < n \<and> no_evaluator h sc (sts ! j) \<Longrightarrow>
   \<exists>e. init_loop h sh sc n sts i s = Bft_error e \<and> unsupported_configuration e"
proof (induction "n - i" arbitrary: i s)
  case 0
  then show ?case by auto
next
  case (Suc k)
  then have lt: "i < n" by simp
  have k: "k = n - Suc i" using Suc.hyps(2) by simp
  have flags: "NDEBUG h \<or> is_dual h (sts ! i) \<or> is_primal h (sts ! i)"
    using Suc.prems(2) [of i] lt by simp
  show ?case
  proof (cases "no_evaluator h sc (sts ! i)")
    case True
    then obtain e where "select_compute h sh sc (sts ! i) = Bft_error e"
      "unsupported_configuration e"
      using select_compute_cases [OF flags, of sc sh] by auto
    then show ?thesis using lt Suc.prems(1)
      by (subst init_loop_unfold) simp
  next
    case False
    then obtain f where f: "select_compute h sh sc (sts ! i) = Return f"
      using select_compute_cases [OF flags, of sc sh] by auto
    from Suc.prems(3) False have later: "\<exists>j. Suc i \<le> j \<and> j < n \<and> no_evaluator h sc (sts ! j)"
      by (metis Suc_leI le_neq_implies_less)
    have "\<exists>e. init_loop h sh sc n sts (Suc i) s1 = Bft_error e \<and> unsupported_configuration e"
      for s1
      by (rule Suc.hyps(1) [OF k Suc.prems(1) _ later]) (simp add: Suc.prems(2))
    then show ?thesis using lt Suc.prems(1) f
      by (subst init_loop_unfold) simp
  qed
qed

text \<open>
  C6. For a registry of at most \<open>CS_N_MAX_SOURCE_TERMS\<close> terms, each of them dual or
  primal (or with the assertions compiled out): if some term is a combination without an
  evaluator (in particular a dual term in the vertex+cell-based scheme, a definition
  that is neither by value nor by analytic function, or an unknown quadrature of a dual
  analytic term), then the initialisation stops with one of the errors that report an
  unsupported configuration; and whenever the initialisation returns, the entry of
  \<open>compute_source\<close> of every term is a function, not NULL.
\<close>

theorem unsupported_configuration_is_an_error:
  assumes "n \<le> CS_N_MAX_SOURCE_TERMS h" and "n \<le> length sts"
    and "\<forall>i<n. NDEBUG h \<or> is_dual h (sts ! i) \<or> is_primal h (sts ! i)"
  shows "((\<exists>i<n. no_evaluator h sc (sts ! i)) \<longrightarrow>
            (\<exists>e. (cs_source_term_init h sh sc n sts sf
                     :: (_ \<times> _ \<times> 'm::len word list option) outcome) = Bft_error e
                  \<and> unsupported_configuration e))
         \<and> (\<forall>cs sf' (m :: 'm word list option).
              cs_source_term_init h sh sc n sts sf = Return (cs, sf', m) \<longrightarrow>
              (\<forall>i<n. cs ! i \<noteq> None))"
proof
  show "(\<exists>i<n. no_evaluator h sc (sts ! i)) \<longrightarrow>
            (\<exists>e. (cs_source_term_init h sh sc n sts sf
                     :: (_ \<times> _ \<times> 'm::len word list option) outcome) = Bft_error e
                  \<and> unsupported_configuration e)"
  proof
    assume bad: "\<exists>i<n. no_evaluator h sc (sts ! i)"
    then have pos: "n \<noteq> 0" by auto
    from bad have "\<exists>j. 0 \<le> j \<and> j < n \<and> no_evaluator h sc (sts ! j)" by auto
    from init_loop_unsupported [OF assms(2) _ this] assms(3)
    obtain e where "init_loop h sh sc n sts 0
        (replicate (CS_N_MAX_SOURCE_TERMS h) None, sf, False) = Bft_error e"
      "unsupported_configuration e"
      by blast
    then show "\<exists>e. (cs_source_term_init h sh sc n sts sf
                     :: (_ \<times> _ \<times> 'm::len word list option) outcome) = Bft_error e
                  \<and> unsupported_configuration e"
      using assms(1) pos by (simp add: cs_source_term_init_def Let_def)
  qed
next
  show "\<forall>cs sf' (m :: 'm word list option).
              cs_source_term_init h sh sc n sts sf = Return (cs, sf', m) \<longrightarrow>
              (\<forall>i<n. cs ! i \<noteq> None)"
  proof (intro allI impI)
    fix cs sf' and m :: "'m word list option" and i
    assume ret: "cs_source_term_init h sh sc n sts sf = Return (cs, sf', m)" and i: "i < n"
    then have pos: "n \<noteq> 0" by auto
    from ret pos assms(1) obtain s' where
      loop: "init_loop h sh sc n sts 0 (replicate (CS_N_MAX_SOURCE_TERMS h) None, sf, False)
             = Return s'" and cs: "cs = fst s'"
      by (auto simp: cs_source_term_init_def Let_def bind_eq_Return split: if_splits)
    from init_loop_Return [OF loop] i assms(1) have "fst s' ! i \<noteq> None" by simp
    then show "cs ! i \<noteq> None" by (simp add: cs)
  qed
qed


text \<open>The initialisation of the registry of two terms.\<close>

lemma replicate_8: "replicate 8 x = [x, x, x, x, x, x, x, x]"
  by (simp add: eval_nat_numeral)

lemma ex_init:
  "(cs_source_term_init ex_header ex_shared CS_SPACE_SCHEME_CDOVB 2 ex_registry 0
      :: (_ \<times> _ \<times> 8 word list option) outcome) = Return (ex_compute_source, 0, None)"
  by (simp add: cs_source_term_init_def init_loop_unfold select_compute_def ex_header_def
      ex_registry_def ex_st_value_def ex_st_one_def ex_compute_source_def is_primal_def
      is_full_loc_def replicate_8)

theorem unsupported_configuration_is_an_error_witness:
  "(2::nat) \<le> CS_N_MAX_SOURCE_TERMS ex_header \<and> 2 \<le> length ex_registry \<and> NDEBUG ex_header
   \<and> no_evaluator ex_header CS_SPACE_SCHEME_CDOVCB (ex_registry ! 0)
   \<and> (\<exists>e. (cs_source_term_init ex_header ex_shared CS_SPACE_SCHEME_CDOVCB 2 ex_registry 0
               :: (_ \<times> _ \<times> 8 word list option) outcome) = Bft_error e
            \<and> unsupported_configuration e)
   \<and> (cs_source_term_init ex_header ex_shared CS_SPACE_SCHEME_CDOVB 2 ex_registry 0
         :: (_ \<times> _ \<times> 8 word list option) outcome) = Return (ex_compute_source, 0, None)
   \<and> ex_compute_source ! 0 \<noteq> None \<and> ex_compute_source ! 1 \<noteq> None"
proof -
  have a: "(2::nat) \<le> CS_N_MAX_SOURCE_TERMS ex_header"
    by (simp add: ex_header_def)
  have b: "2 \<le> length ex_registry"
    by (simp add: ex_registry_def)
  have c: "NDEBUG ex_header"
    by (simp add: ex_header_def)
  then have c': "\<forall>i<2. NDEBUG ex_header \<or> is_dual ex_header (ex_registry ! i)
                       \<or> is_primal ex_header (ex_registry ! i)"
    by simp
  have d: "no_evaluator ex_header CS_SPACE_SCHEME_CDOVCB (ex_registry ! 0)"
    by (simp add: ex_registry_def ex_st_value_def ex_header_def is_dual_def)
  then have d': "\<exists>i<2. no_evaluator ex_header CS_SPACE_SCHEME_CDOVCB (ex_registry ! i)"
    by (intro exI [of _ 0]) simp
  have e: "\<exists>e. (cs_source_term_init ex_header ex_shared CS_SPACE_SCHEME_CDOVCB 2 ex_registry 0
               :: (_ \<times> _ \<times> 8 word list option) outcome) = Bft_error e
            \<and> unsupported_configuration e"
    using unsupported_configuration_is_an_error [OF a b c', where ?'m = 8] d' by blast
  have f: "\<forall>i<2. ex_compute_source ! i \<noteq> None"
    using unsupported_configuration_is_an_error [OF a b c', where ?'m = 8] ex_init by blast
  show ?thesis using a b c d e f ex_init by simp
qed

lemma init_full_loc_no_mask:
  assumes full: "\<forall>i<n. is_full_loc h (sts ! i)"
    and ret: "cs_source_term_init h sh sc n sts sf = Return (cs, sf', m)"
  shows "m = None"
proof (cases "n = 0")
  case True
  with ret show ?thesis by (simp add: cs_source_term_init_def Let_def split: if_splits)
next
  case False
  with ret obtain s' where
    loop: "init_loop h sh sc n sts 0 (replicate (CS_N_MAX_SOURCE_TERMS h) None, sf, False)
           = Return s'"
    and rest: "(if snd (snd s') then
                 bind (mask_loop h sh n sts 0 (replicate (n_cells sh) 0)) (\<lambda>mask.
                   Return (fst s', fst (snd s'), Some mask))
               else Return (fst s', fst (snd s'), None)) = Return (cs, sf', m)"
    by (auto simp: cs_source_term_init_def Let_def bind_eq_Return split: if_splits)
  from init_loop_Return [OF loop] full have "\<not> snd (snd s')" by simp
  with rest show ?thesis by simp
qed

lemma init_full_loc_returns:
  assumes full: "\<forall>i<n. is_full_loc h (sts ! i)"
    and n: "n \<le> CS_N_MAX_SOURCE_TERMS h" "n \<le> length sts"
    and ok: "\<forall>i<n. \<not> no_evaluator h sc (sts ! i)
                   \<and> (NDEBUG h \<or> is_dual h (sts ! i) \<or> is_primal h (sts ! i))"
  shows "\<exists>cs sf'. cs_source_term_init h sh sc n sts sf = Return (cs, sf', None)"
proof (cases "n = 0")
  case True
  then show ?thesis by (simp add: cs_source_term_init_def Let_def)
next
  case False
  have "\<exists>f. select_compute h sh sc (sts ! j) = Return f" if "j < n" for j
    using select_compute_cases [of h "sts ! j" sc sh] ok that by auto
  then obtain s' where
    loop: "init_loop h sh sc n sts 0 (replicate (CS_N_MAX_SOURCE_TERMS h) None, sf, False)
           = Return s'"
    using init_loop_returns [OF n(2), of 0 h sh sc] by blast
  from init_loop_Return [OF loop] full have "\<not> snd (snd s')" by simp
  with loop False n(1) show ?thesis
    by (simp add: cs_source_term_init_def Let_def)
qed

lemma filter_all_selected:
  "\<forall>i<n. P i \<Longrightarrow> filter P [0..<n] = [0..<n]"
  by (simp add: filter_id_conv)

text \<open>
  C4. If every source term is defined on the whole mesh, then the mask that the
  initialisation returns is NULL, and the initialisation does return when the registry
  fits and every term has an evaluator. For a cell, the cellwise computation without a
  mask gives the same outcome, builder and buffer, as with a mask whose word for the
  cell has the bit of every term set.
\<close>

theorem full_domain_shortcut:
  "((\<forall>i<n. is_full_loc h (sts ! i)) \<longrightarrow>
      (\<forall>cs sf' (m :: 'm::len word list option).
         cs_source_term_init h sh sc n sts sf = Return (cs, sf', m) \<longrightarrow> m = None)
      \<and> (n \<le> CS_N_MAX_SOURCE_TERMS h \<and> n \<le> length sts
           \<and> (\<forall>i<n. \<not> no_evaluator h sc (sts ! i)
                      \<and> (NDEBUG h \<or> is_dual h (sts ! i) \<or> is_primal h (sts ! i))) \<longrightarrow>
         (\<exists>cs sf'. (cs_source_term_init h sh sc n sts sf
                     :: (_ \<times> _ \<times> 'm word list option) outcome) = Return (cs, sf', None))))
   \<and> (c_id cm < length cell_mask \<and> (\<forall>i<n. bit (cell_mask ! c_id cm) i) \<longrightarrow>
        cs_source_term_compute_cellwise h n sts cm sys_flag None compute_source cb csys
        = cs_source_term_compute_cellwise h n sts cm sys_flag (Some (cell_mask :: 'm word list))
            compute_source cb csys)"
proof (intro conjI impI allI)
  fix cs sf' and m :: "'m word list option"
  assume "\<forall>i<n. is_full_loc h (sts ! i)"
    and "cs_source_term_init h sh sc n sts sf = Return (cs, sf', m)"
  then show "m = None" by (rule init_full_loc_no_mask)
next
  assume "\<forall>i<n. is_full_loc h (sts ! i)"
    and "n \<le> CS_N_MAX_SOURCE_TERMS h \<and> n \<le> length sts
           \<and> (\<forall>i<n. \<not> no_evaluator h sc (sts ! i)
                      \<and> (NDEBUG h \<or> is_dual h (sts ! i) \<or> is_primal h (sts ! i)))"
  then show "\<exists>cs sf'. (cs_source_term_init h sh sc n sts sf
                     :: (_ \<times> _ \<times> 'm word list option) outcome) = Return (cs, sf', None)"
    using init_full_loc_returns [of n h sts sc sh sf] by blast
next
  assume "c_id cm < length cell_mask \<and> (\<forall>i<n. bit (cell_mask ! c_id cm) i)"
  then show "cs_source_term_compute_cellwise h n sts cm sys_flag None compute_source cb csys
        = cs_source_term_compute_cellwise h n sts cm sys_flag (Some cell_mask)
            compute_source cb csys"
    by (simp add: cs_source_term_compute_cellwise_def Let_def compute_all_eq compute_masked_eq
        filter_all_selected)
qed


theorem full_domain_shortcut_witness:
  "is_full_loc ex_header (ex_registry ! 0) \<and> is_full_loc ex_header (ex_registry ! 1)
   \<and> (cs_source_term_init ex_header ex_shared CS_SPACE_SCHEME_CDOVB 2 ex_registry 0
         :: (_ \<times> _ \<times> 8 word list option) outcome) = Return (ex_compute_source, 0, None)
   \<and> c_id ex_tet < length ex_full_mask
   \<and> bit (ex_full_mask ! c_id ex_tet) (0::nat) \<and> bit (ex_full_mask ! c_id ex_tet) (1::nat)
   \<and> cs_source_term_compute_cellwise ex_header 2 ex_registry ex_tet 128 None
         ex_compute_source ex_cb ex_csys
       = cs_source_term_compute_cellwise ex_header 2 ex_registry ex_tet 128 (Some ex_full_mask)
           ex_compute_source ex_cb ex_csys"
proof -
  have full: "is_full_loc ex_header (ex_registry ! 0)" "is_full_loc ex_header (ex_registry ! 1)"
    by (simp_all add: is_full_loc_def ex_header_def ex_registry_def ex_st_value_def
        ex_st_one_def)
  have cell: "c_id ex_tet < length ex_full_mask"
    by (simp add: ex_tet_def ex_full_mask_def)
  have bits: "bit (ex_full_mask ! c_id ex_tet) (0::nat)" "bit (ex_full_mask ! c_id ex_tet) (1::nat)"
    by (simp_all add: ex_tet_def ex_full_mask_def bit_numeral_simps)
  then have all_bits: "\<forall>i<2. bit (ex_full_mask ! c_id ex_tet) i"
    by (simp add: numeral_2_eq_2 less_Suc_eq)
  have "cs_source_term_compute_cellwise ex_header 2 ex_registry ex_tet 128 None
         ex_compute_source ex_cb ex_csys
       = cs_source_term_compute_cellwise ex_header 2 ex_registry ex_tet 128 (Some ex_full_mask)
           ex_compute_source ex_cb ex_csys"
    using full_domain_shortcut [where n = 2 and cm = ex_tet and cell_mask = ex_full_mask]
      cell all_bits by blast
  then show ?thesis using full cell bits ex_init by simp
qed

section \<open>The words of the mask\<close>

lemma mask_or_all_Return:
  "mask_or_all msk ids cm = Return cm' \<Longrightarrow>
     length cm' = length cm
     \<and> (\<forall>x\<in>set ids. 0 \<le> x \<and> nat x < length cm)
     \<and> (\<forall>c<length cm. cm' ! c = (if int c \<in> set ids then cm ! c OR msk else cm ! c))"
proof (induction ids arbitrary: cm)
  case Nil
  then show ?case by simp
next
  case (Cons i ids)
  from Cons.prems have range: "0 \<le> i" "nat i < length cm"
    and rest: "mask_or_all msk ids (cm[nat i := cm ! nat i OR msk]) = Return cm'"
    by (auto simp: mask_or_def split: if_splits)
  note IH = Cons.IH [OF rest]
  have "cm' ! c = (if int c \<in> set (i # ids) then cm ! c OR msk else cm ! c)"
    if "c < length cm" for c
  proof (cases "c = nat i")
    case True
    then show ?thesis using IH that range by (simp add: or.assoc)
  next
    case False
    then have "int c \<noteq> i" using range by auto
    then show ?thesis using IH that False by simp
  qed
  then show ?case using IH range by simp
qed

lemma mask_or_all_in_range:
  "\<forall>x\<in>set ids. 0 \<le> x \<and> nat x < length cm \<Longrightarrow> \<exists>cm'. mask_or_all msk ids cm = Return cm'"
  by (induction ids arbitrary: cm) (simp_all add: mask_or_def)

lemma mask_or_all_outcome:
  "(\<exists>cm'. mask_or_all msk ids cm = Return cm')
   \<or> mask_or_all msk ids cm = Abnormal Out_of_bounds_write"
  by (induction ids arbitrary: cm) (simp_all add: mask_or_def)

lemma mask_or_all_oob:
  "x \<in> set ids \<Longrightarrow> \<not> (0 \<le> x \<and> nat x < length cm) \<Longrightarrow>
   mask_or_all msk ids cm = Abnormal Out_of_bounds_write"
proof (induction ids arbitrary: cm)
  case Nil
  then show ?case by simp
next
  case (Cons i ids)
  show ?case
  proof (cases "0 \<le> i \<and> nat i < length cm")
    case True
    with Cons.prems have x: "x \<in> set ids" by auto
    have "\<not> (0 \<le> x \<and> nat x < length (cm[nat i := cm ! nat i OR msk]))"
      using Cons.prems(2) by simp
    with x have "mask_or_all msk ids (cm[nat i := cm ! nat i OR msk])
                 = Abnormal Out_of_bounds_write"
      by (rule Cons.IH)
    with True show ?thesis by (simp add: mask_or_def)
  next
    case False
    then show ?thesis by (auto simp: mask_or_def)
  qed
qed

lemma set_mask_Return:
  assumes "set_mask h sh (Some st) i cm = Return cm'" and "length cm = n_cells sh"
  shows "length cm' = n_cells sh"
    and "c < n_cells sh \<Longrightarrow>
         cm' ! c = (if term_applies h sh st c then cm ! c OR push_bit i 1 else cm ! c)"
proof -
  show "length cm' = n_cells sh"
    using assms mask_or_all_Return [of "push_bit i 1" _ cm cm']
    by (auto simp: set_mask_def Let_def is_full_loc_def split: if_splits option.splits)
  show "cm' ! c = (if term_applies h sh st c then cm ! c OR push_bit i 1 else cm ! c)"
    if "c < n_cells sh"
  proof (cases "is_full_loc h st")
    case True
    with assms(1) have "mask_or_all (push_bit i 1) (map int [0..<n_cells sh]) cm = Return cm'"
      by (simp add: set_mask_def Let_def is_full_loc_def)
    from mask_or_all_Return [OF this] that assms(2) True show ?thesis
      by (simp add: term_applies_def)
  next
    case False
    with assms(1) obtain ids where ids: "cs_mesh_location_get_elt_list sh (ml_id st) = Some ids"
      and "mask_or_all (push_bit i 1) ids cm = Return cm'"
      by (auto simp: set_mask_def Let_def is_full_loc_def split: option.splits)
    from mask_or_all_Return [OF this(2)] that assms(2) False ids show ?thesis
      by (simp add: term_applies_def)
  qed
qed

lemma mask_loop_unfold:
  "mask_loop h sh n sts i cm =
     (if i < n then
        (if i < length sts
         then bind (set_mask h sh (Some (sts ! i)) i cm) (mask_loop h sh n sts (Suc i))
         else Abnormal Out_of_bounds_read)
      else Return cm)"
  by (subst mask_loop.simps) simp

lemma bit_or_term_bit:
  "bit (w OR 2 ^ i) b \<longleftrightarrow> bit w b \<or> (b = i \<and> i < LENGTH('m))"
  for w :: "'m::len word"
  by (auto simp: bit_or_iff bit_exp_iff)

lemma mask_loop_Return:
  "mask_loop h sh n sts i cm = Return cm' \<Longrightarrow> length cm = n_cells sh \<Longrightarrow>
     length cm' = n_cells sh
     \<and> (\<forall>c<n_cells sh. \<forall>b. bit (cm' ! c) b \<longleftrightarrow>
           bit (cm ! c) b \<or> (i \<le> b \<and> b < n \<and> b < LENGTH('m) \<and> term_applies h sh (sts ! b) c))"
  for cm :: "'m::len word list"
proof (induction "n - i" arbitrary: i cm)
  case 0
  then show ?case by (subst (asm) mask_loop_unfold) auto
next
  case (Suc k)
  then have lt: "i < n" by simp
  from Suc.prems(1) lt obtain cm1 where
    one: "set_mask h sh (Some (sts ! i)) i cm = Return cm1"
    and rest: "mask_loop h sh n sts (Suc i) cm1 = Return cm'"
    by (subst (asm) mask_loop_unfold) (auto simp: bind_eq_Return split: if_splits)
  note sm = set_mask_Return [OF one Suc.prems(2)]
  have k: "k = n - Suc i" using Suc.hyps(2) by simp
  note IH = Suc.hyps(1) [OF k rest sm(1)]
  have "bit (cm' ! c) b \<longleftrightarrow>
          bit (cm ! c) b \<or> (i \<le> b \<and> b < n \<and> b < LENGTH('m) \<and> term_applies h sh (sts ! b) c)"
    if c: "c < n_cells sh" for c b
  proof -
    have "bit (cm' ! c) b \<longleftrightarrow> bit (cm1 ! c) b
            \<or> (Suc i \<le> b \<and> b < n \<and> b < LENGTH('m) \<and> term_applies h sh (sts ! b) c)"
      using IH c by blast
    also have "bit (cm1 ! c) b \<longleftrightarrow> bit (cm ! c) b
            \<or> (b = i \<and> i < LENGTH('m) \<and> term_applies h sh (sts ! i) c)"
      using sm(2) [OF c] by (auto simp: bit_or_term_bit)
    finally show ?thesis using lt by (auto simp: Suc_le_eq)
  qed
  then show ?case using IH by blast
qed

text \<open>
  C3. With a mask type wide enough for \<open>CS_N_MAX_SOURCE_TERMS\<close> bits: when the
  initialisation returns for a registry with a term that is not defined on the whole
  mesh, it returns a mask with one word for each cell, and for every cell \<open>c\<close> and
  every \<open>i\<close>, bit \<open>i\<close> of the word of \<open>c\<close> is set if and only if \<open>i\<close> is the id of
  a term that applies to \<open>c\<close>.
\<close>

theorem mask_bits_are_term_memberships:
  assumes "CS_N_MAX_SOURCE_TERMS h \<le> LENGTH('m::len)"
    and "cs_source_term_init h sh sc n sts sf = Return (cs, sf', m)"
    and "\<exists>i<n. \<not> is_full_loc h (sts ! i)"
  shows "\<exists>cell_mask :: 'm word list. m = Some cell_mask \<and> length cell_mask = n_cells sh
           \<and> (\<forall>c<n_cells sh. \<forall>i. bit (cell_mask ! c) i \<longleftrightarrow>
                 i < n \<and> term_applies h sh (sts ! i) c)"
proof -
  from assms(3) have pos: "n \<noteq> 0" by auto
  from assms(2) pos have n: "n \<le> CS_N_MAX_SOURCE_TERMS h"
    by (simp add: cs_source_term_init_def split: if_splits)
  from assms(2) pos n obtain s' where
    loop: "init_loop h sh sc n sts 0 (replicate (CS_N_MAX_SOURCE_TERMS h) None, sf, False)
           = Return s'"
    and rest: "(if snd (snd s') then
                 bind (mask_loop h sh n sts 0 (replicate (n_cells sh) 0)) (\<lambda>mask.
                   Return (fst s', fst (snd s'), Some mask))
               else Return (fst s', fst (snd s'), None)) = Return (cs, sf', m)"
    by (auto simp: cs_source_term_init_def Let_def bind_eq_Return)
  from init_loop_Return [OF loop] assms(3) have "snd (snd s')" by auto
  with rest obtain cell_mask :: "'m word list" where
    ml: "mask_loop h sh n sts 0 (replicate (n_cells sh) 0) = Return cell_mask"
    and m: "m = Some cell_mask"
    by (auto simp: bind_eq_Return)
  from mask_loop_Return [OF ml] have len: "length cell_mask = n_cells sh"
    and bits: "\<And>c b. c < n_cells sh \<Longrightarrow> bit (cell_mask ! c) b \<longleftrightarrow>
        (b < n \<and> b < LENGTH('m) \<and> term_applies h sh (sts ! b) c)"
    by simp_all
  have "bit (cell_mask ! c) i \<longleftrightarrow> i < n \<and> term_applies h sh (sts ! i) c"
    if "c < n_cells sh" for c i
    using bits [OF that, of i] n assms(1) by auto
  then show ?thesis using m len by blast
qed


text \<open>The initialisation of a registry with a term on the cells 0 and 2 of three.\<close>

lemma replicate_3: "replicate 3 x = [x, x, x]"
  by (simp add: eval_nat_numeral)

lemma ex_init_subset:
  "(cs_source_term_init ex_header ex_shared CS_SPACE_SCHEME_CDOVB 2 ex_registry_subset 0
      :: (_ \<times> _ \<times> 8 word list option) outcome)
   = Return (ex_compute_source, 0, Some [3, 1, 3])"
  by (simp add: cs_source_term_init_def init_loop_unfold mask_loop_unfold select_compute_def
      set_mask_def mask_or_def ex_header_def ex_shared_def ex_registry_subset_def
      ex_st_value_def ex_st_one_def ex_st_subset_def ex_compute_source_def is_primal_def
      is_full_loc_def replicate_8 replicate_3 upt_rec)

theorem mask_bits_are_term_memberships_witness:
  "CS_N_MAX_SOURCE_TERMS ex_header \<le> LENGTH(8)
   \<and> (cs_source_term_init ex_header ex_shared CS_SPACE_SCHEME_CDOVB 2 ex_registry_subset 0
         :: (_ \<times> _ \<times> 8 word list option) outcome)
       = Return (ex_compute_source, 0, Some [3, 1, 3])
   \<and> \<not> is_full_loc ex_header (ex_registry_subset ! 1)
   \<and> (\<exists>cell_mask :: 8 word list. Some [3, 1, 3] = Some cell_mask
         \<and> length cell_mask = n_cells ex_shared
         \<and> (\<forall>c<n_cells ex_shared. \<forall>i. bit (cell_mask ! c) i \<longleftrightarrow>
               i < 2 \<and> term_applies ex_header ex_shared (ex_registry_subset ! i) c))"
proof -
  have a: "CS_N_MAX_SOURCE_TERMS ex_header \<le> LENGTH(8)"
    by (simp add: ex_header_def)
  have b: "\<not> is_full_loc ex_header (ex_registry_subset ! 1)"
    by (simp add: is_full_loc_def ex_header_def ex_registry_subset_def ex_st_subset_def
        ex_st_one_def ex_st_value_def)
  then have b': "\<exists>i<2. \<not> is_full_loc ex_header (ex_registry_subset ! i)"
    by (intro exI [of _ 1]) simp
  show ?thesis
    using mask_bits_are_term_memberships [OF a ex_init_subset b'] a b ex_init_subset by simp
qed

lemma set_mask_outcome:
  assumes "\<not> is_full_loc h st \<longrightarrow> cs_mesh_location_get_elt_list sh (ml_id st) \<noteq> None"
  shows "(\<exists>cm'. set_mask h sh (Some st) i cm = Return cm' \<and> length cm' = length cm)
         \<or> set_mask h sh (Some st) i cm = Abnormal Out_of_bounds_write"
proof -
  have "(\<exists>cm'. mask_or_all msk ids cm = Return cm' \<and> length cm' = length cm)
        \<or> mask_or_all msk ids cm = Abnormal Out_of_bounds_write" for msk :: "'c word" and ids
    using mask_or_all_outcome [of msk ids cm] mask_or_all_Return [of msk ids cm] by blast
  then show ?thesis using assms
    by (auto simp: set_mask_def Let_def is_full_loc_def split: option.splits)
qed

lemma set_mask_oob:
  assumes "\<not> is_full_loc h st" and "cs_mesh_location_get_elt_list sh (ml_id st) = Some ids"
    and "x \<in> set ids" and "int (length cm) \<le> x"
  shows "set_mask h sh (Some st) i cm = Abnormal Out_of_bounds_write"
proof -
  have "\<not> (0 \<le> x \<and> nat x < length cm)" using assms(4) by auto
  from mask_or_all_oob [OF assms(3) this] assms(1,2) show ?thesis
    by (simp add: set_mask_def Let_def is_full_loc_def)
qed

lemma mask_loop_oob:
  "length cm = n_cells sh \<Longrightarrow> n \<le> length sts \<Longrightarrow>
   (\<And>j. j < n \<Longrightarrow> \<not> is_full_loc h (sts ! j) \<Longrightarrow>
         cs_mesh_location_get_elt_list sh (ml_id (sts ! j)) \<noteq> None) \<Longrightarrow>
   i \<le> j \<Longrightarrow> j < n \<Longrightarrow> \<not> is_full_loc h (sts ! j) \<Longrightarrow>
   cs_mesh_location_get_elt_list sh (ml_id (sts ! j)) = Some ids \<Longrightarrow>
   x \<in> set ids \<Longrightarrow> int (n_cells sh) \<le> x \<Longrightarrow>
   mask_loop h sh n sts i cm = Abnormal Out_of_bounds_write"
proof (induction "j - i" arbitrary: i cm)
  case 0
  then have "i = j" by simp
  with 0 have "set_mask h sh (Some (sts ! i)) i cm = Abnormal Out_of_bounds_write"
    using set_mask_oob [of h "sts ! j" sh ids x cm j] by simp
  with 0 \<open>i = j\<close> show ?case by (subst mask_loop_unfold) simp
next
  case (Suc k)
  then have lt: "i < j" "i < n" "i < length sts" by simp_all
  have k: "k = j - Suc i" using Suc.hyps(2) by simp
  have lists: "\<not> is_full_loc h (sts ! i) \<longrightarrow>
               cs_mesh_location_get_elt_list sh (ml_id (sts ! i)) \<noteq> None"
    using Suc.prems(3) [of i] lt by simp
  from set_mask_outcome [OF lists, of i cm] show ?case
  proof
    assume "\<exists>cm'. set_mask h sh (Some (sts ! i)) i cm = Return cm' \<and> length cm' = length cm"
    then obtain cm' where one: "set_mask h sh (Some (sts ! i)) i cm = Return cm'"
      and len: "length cm' = n_cells sh"
      using Suc.prems(1) by auto
    have "mask_loop h sh n sts (Suc i) cm' = Abnormal Out_of_bounds_write"
      using Suc.hyps(1) [OF k len Suc.prems(2) Suc.prems(3) _ Suc.prems(5-9)] lt by simp
    with one lt show ?thesis by (subst mask_loop_unfold) simp
  next
    assume "set_mask h sh (Some (sts ! i)) i cm = Abnormal Out_of_bounds_write"
    with lt show ?thesis by (subst mask_loop_unfold) simp
  qed
qed

text \<open>
  C7. The list of a term may hold an index that is not below the number of cells: with
  the list 1, 5 on a mesh of three cells the initialisation raises no error; it writes
  \<open>cell_mask[5]\<close> behind the three words of the mask.
\<close>

theorem mask_build_out_of_bounds:
  "(cs_source_term_init ex_header ex_shared CS_SPACE_SCHEME_CDOVB 1 [ex_st_oob] 0
      :: (_ \<times> _ \<times> 8 word list option) outcome) = Abnormal Out_of_bounds_write"
  by (simp add: cs_source_term_init_def init_loop_unfold mask_loop_unfold select_compute_def
      set_mask_def mask_or_def ex_header_def ex_shared_def ex_st_value_def ex_st_one_def
      ex_st_oob_def is_primal_def is_full_loc_def replicate_8 replicate_3)

text \<open>
  C7, as the code has it. For a registry that fits, in which every term has an evaluator
  and every term on a part of the mesh has a list: if the list of some term holds an
  index that is not below the number of cells, the initialisation raises no error; it
  uses the index as it is and writes outside the words of the mask, which is the outcome
  \<open>Out_of_bounds_write\<close>.
\<close>

theorem mask_build_does_not_check_indices:
  assumes "n \<le> CS_N_MAX_SOURCE_TERMS h" and "n \<le> length sts"
    and "\<forall>j<n. \<exists>f. select_compute h sh sc (sts ! j) = Return f"
    and "\<forall>j<n. \<not> is_full_loc h (sts ! j) \<longrightarrow>
               cs_mesh_location_get_elt_list sh (ml_id (sts ! j)) \<noteq> None"
    and "i < n" and "\<not> is_full_loc h (sts ! i)"
    and "cs_mesh_location_get_elt_list sh (ml_id (sts ! i)) = Some ids"
    and "x \<in> set ids" and "int (n_cells sh) \<le> x"
  shows "(cs_source_term_init h sh sc n sts sf :: (_ \<times> _ \<times> 'm::len word list option) outcome)
         = Abnormal Out_of_bounds_write"
proof -
  from assms(5) have pos: "n \<noteq> 0" by auto
  obtain s' where
    loop: "init_loop h sh sc n sts 0 (replicate (CS_N_MAX_SOURCE_TERMS h) None, sf, False)
           = Return s'"
    using init_loop_returns [OF assms(2), of 0 h sh sc] assms(3) by blast
  from init_loop_Return [OF loop] assms(5,6) have need: "snd (snd s')" by auto
  have "mask_loop h sh n sts 0 (replicate (n_cells sh) (0 :: 'm word))
        = Abnormal Out_of_bounds_write"
    by (rule mask_loop_oob [where j = i and ids = ids and x = x])
       (use assms in simp_all)
  with loop need pos assms(1) show ?thesis
    by (simp add: cs_source_term_init_def Let_def)
qed

theorem mask_build_does_not_check_indices_witness:
  "(1::nat) \<le> CS_N_MAX_SOURCE_TERMS ex_header \<and> 1 \<le> length [ex_st_oob]
   \<and> select_compute ex_header ex_shared CS_SPACE_SCHEME_CDOVB ([ex_st_oob] ! 0)
       = Return (cs_source_term_dcsd_bary_by_analytic ex_shared)
   \<and> \<not> is_full_loc ex_header ([ex_st_oob] ! 0)
   \<and> cs_mesh_location_get_elt_list ex_shared (ml_id ([ex_st_oob] ! 0)) = Some [1, 5]
   \<and> (5::int) \<in> set [1, 5] \<and> int (n_cells ex_shared) \<le> 5
   \<and> (cs_source_term_init ex_header ex_shared CS_SPACE_SCHEME_CDOVB 1 [ex_st_oob] 0
        :: (_ \<times> _ \<times> 8 word list option) outcome) = Abnormal Out_of_bounds_write"
proof -
  have a: "(1::nat) \<le> CS_N_MAX_SOURCE_TERMS ex_header" "1 \<le> length [ex_st_oob]"
    by (simp_all add: ex_header_def)
  have b: "select_compute ex_header ex_shared CS_SPACE_SCHEME_CDOVB ([ex_st_oob] ! 0)
       = Return (cs_source_term_dcsd_bary_by_analytic ex_shared)"
    by (simp add: select_compute_def ex_header_def ex_st_oob_def ex_st_one_def ex_st_value_def)
  have c: "\<not> is_full_loc ex_header ([ex_st_oob] ! 0)"
    by (simp add: is_full_loc_def ex_header_def ex_st_oob_def ex_st_one_def ex_st_value_def)
  have d: "cs_mesh_location_get_elt_list ex_shared (ml_id ([ex_st_oob] ! 0)) = Some [1, 5]"
    by (simp add: ex_shared_def ex_st_oob_def ex_st_one_def ex_st_value_def)
  have e: "(5::int) \<in> set [1, 5]" "int (n_cells ex_shared) \<le> 5"
    by (simp_all add: ex_shared_def)
  have "(cs_source_term_init ex_header ex_shared CS_SPACE_SCHEME_CDOVB 1 [ex_st_oob] 0
        :: (_ \<times> _ \<times> 8 word list option) outcome) = Abnormal Out_of_bounds_write"
    by (rule mask_build_does_not_check_indices [OF a _ _ _ c d e]) (use b d in simp_all)
  then show ?thesis using a b c d e by simp
qed

section \<open>The blocks released by the destruction\<close>

lemma destroy_loop_unfold:
  "destroy_loop h n sts i heap =
     (if i < n then
        (if i < length sts
         then bind (destroy_step h (sts ! i) heap) (destroy_loop h n sts (Suc i))
         else Abnormal Out_of_bounds_read)
      else Return heap)"
  by (subst destroy_loop.simps) simp

lemma BFT_FREE_Return:
  "BFT_FREE heap p = Return heap' \<Longrightarrow> heap' = heap - set_option p"
  by (cases p) (auto simp: BFT_FREE_def split: if_splits)

lemma released_Cons:
  "released h (st # sts) = released h [st] \<union> released h sts"
  by (simp add: released_def)

lemma destroy_step_Return:
  assumes "destroy_step h st heap = Return heap'"
  shows "heap' = heap - released h [st]"
proof -
  from assms obtain heap1 where
    one: "BFT_FREE heap (name st) = Return heap1"
    and two: "(if array_desc_state st AND CS_FLAG_STATE_OWNER h \<noteq> 0
               then (if array st \<noteq> None then BFT_FREE heap1 (array st) else Return heap1)
               else Return heap1) = Return heap'"
    by (auto simp: destroy_step_def bind_eq_Return)
  have h1: "heap1 = heap - set_option (name st)"
    using one by (rule BFT_FREE_Return)
  show ?thesis
  proof (cases "array_desc_state st AND CS_FLAG_STATE_OWNER h \<noteq> 0")
    case True
    then have "heap' = heap1 - set_option (array st)"
      using two BFT_FREE_Return [of heap1 "array st" heap'] by (cases "array st") auto
    with h1 True show ?thesis by (auto simp: released_def)
  next
    case False
    with two h1 show ?thesis by (auto simp: released_def)
  qed
qed

lemma destroy_loop_Return:
  "destroy_loop h n sts i heap = Return heap' \<Longrightarrow>
     (i < n \<longrightarrow> n \<le> length sts) \<and> heap' = heap - released h (drop i (take n sts))"
proof (induction "n - i" arbitrary: i heap)
  case 0
  then show ?case by (subst (asm) destroy_loop_unfold) (auto simp: released_def)
next
  case (Suc k)
  then have lt: "i < n" by simp
  from Suc.prems lt have len: "i < length sts"
    by (subst (asm) destroy_loop_unfold) (simp split: if_splits)
  from Suc.prems lt len obtain heap1 where
    one: "destroy_step h (sts ! i) heap = Return heap1"
    and rest: "destroy_loop h n sts (Suc i) heap1 = Return heap'"
    by (subst (asm) destroy_loop_unfold) (auto simp: bind_eq_Return)
  have k: "k = n - Suc i" using Suc.hyps(2) by simp
  note IH = Suc.hyps(1) [OF k rest]
  have n: "n \<le> length sts" using IH len by (cases "Suc i < n") auto
  have "drop i (take n sts) = sts ! i # drop (Suc i) (take n sts)"
    using lt n Cons_nth_drop_Suc [of i "take n sts"] by simp
  then have "released h (drop i (take n sts))
             = released h [sts ! i] \<union> released h (drop (Suc i) (take n sts))"
    by (simp add: released_Cons [symmetric])
  with IH destroy_step_Return [OF one] n show ?case by auto
qed

text \<open>
  C8. When the destruction of an array of descriptors returns, it returns NULL and has
  released the block of the array, the name of each of the \<open>n_source_terms\<close> terms
  and the array of each term whose descriptor has the owner bit, and nothing else: every
  other allocated block, in particular an array that is only borrowed, is still
  allocated. On a NULL array of descriptors the destruction changes nothing and returns
  NULL.
\<close>

theorem destroy_releases_names_and_owned_arrays:
  "(cs_source_term_destroy h n (Some (a, sts)) heap = Return (heap', r) \<longrightarrow>
      r = None
      \<and> heap' = heap - insert a (released h (take n sts))
      \<and> (\<forall>i<n. set_option (name (sts ! i)) \<inter> heap' = {})
      \<and> (\<forall>i<n. array_desc_state (sts ! i) AND CS_FLAG_STATE_OWNER h \<noteq> 0 \<longrightarrow>
                  set_option (array (sts ! i)) \<inter> heap' = {})
      \<and> (\<forall>p \<in> heap. p \<noteq> a \<and> p \<notin> released h (take n sts) \<longrightarrow> p \<in> heap'))
   \<and> cs_source_term_destroy h n None heap = Return (heap, None)"
proof (intro conjI impI)
  assume ret: "cs_source_term_destroy h n (Some (a, sts)) heap = Return (heap', r)"
  then obtain heap1 heap2 where
    loop: "destroy_loop h n sts 0 heap = Return heap1"
    and free: "BFT_FREE heap1 (Some a) = Return heap2"
    and res: "heap' = heap2" "r = None"
    by (auto simp: cs_source_term_destroy_def bind_eq_Return)
  show "r = None" by (rule res)
  from destroy_loop_Return [OF loop] have n: "0 < n \<longrightarrow> n \<le> length sts"
    and h1: "heap1 = heap - released h (take n sts)"
    by simp_all
  from BFT_FREE_Return [OF free] h1 res
  show eq: "heap' = heap - insert a (released h (take n sts))"
    by auto
  have mem: "sts ! i \<in> set (take n sts)" if "i < n" for i
    using that n by (auto simp: in_set_conv_nth intro!: exI [of _ i])
  show "\<forall>i<n. set_option (name (sts ! i)) \<inter> heap' = {}"
    using eq mem by (auto simp: released_def)
  show "\<forall>i<n. array_desc_state (sts ! i) AND CS_FLAG_STATE_OWNER h \<noteq> 0 \<longrightarrow>
                  set_option (array (sts ! i)) \<inter> heap' = {}"
  proof (intro allI impI)
    fix i assume i: "i < n"
      and own: "array_desc_state (sts ! i) AND CS_FLAG_STATE_OWNER h \<noteq> 0"
    have "set_option (array (sts ! i)) \<subseteq> released h (take n sts)"
      using mem [OF i] own by (auto simp: released_def)
    with eq show "set_option (array (sts ! i)) \<inter> heap' = {}" by auto
  qed
  show "\<forall>p \<in> heap. p \<noteq> a \<and> p \<notin> released h (take n sts) \<longrightarrow> p \<in> heap'"
    using eq by auto
next
  show "cs_source_term_destroy h n None heap = Return (heap, None)"
    by (simp add: cs_source_term_destroy_def)
qed



text \<open>The destruction of the registry with an owned and a borrowed array.\<close>

lemma ex_destroy:
  "cs_source_term_destroy ex_header 2 (Some (300, ex_registry_arrays))
     {100, 101, 200, 201, 300} = Return ({201}, None)"
proof -
  have "{101, 200, 201, 300} - {200} - {101} - {300} = {201::nat}"
    by auto
  then show ?thesis
    by (simp add: cs_source_term_destroy_def destroy_loop_unfold destroy_step_def BFT_FREE_def
        ex_registry_arrays_def ex_st_value_def ex_header_def)
qed


theorem destroy_releases_names_and_owned_arrays_witness:
  "cs_source_term_destroy ex_header 2 (Some (300, ex_registry_arrays))
     {100, 101, 200, 201, 300} = Return ({201}, None)
   \<and> {201} = {100, 101, 200, 201, 300} - insert 300 (released ex_header (take 2 ex_registry_arrays))
   \<and> set_option (name (ex_registry_arrays ! 0)) \<inter> {201} = {}
   \<and> array_desc_state (ex_registry_arrays ! 0) AND CS_FLAG_STATE_OWNER ex_header \<noteq> 0
   \<and> set_option (array (ex_registry_arrays ! 0)) \<inter> {201} = {}
   \<and> array_desc_state (ex_registry_arrays ! 1) AND CS_FLAG_STATE_OWNER ex_header = 0
   \<and> array (ex_registry_arrays ! 1) = Some 201
   \<and> (201::nat) \<noteq> 300 \<and> 201 \<notin> released ex_header (take 2 ex_registry_arrays)"
proof -
  note t = destroy_releases_names_and_owned_arrays [of ex_header 2 300 ex_registry_arrays
      "{100, 101, 200, 201, 300}" "{201}" None]
  from t ex_destroy
  have eq: "{201} = {100, 101, 200, 201, 300}
              - insert 300 (released ex_header (take 2 ex_registry_arrays))"
    by (elim conjE impE) assumption
  have facts: "set_option (name (ex_registry_arrays ! 0)) \<inter> {201} = {}"
    "array_desc_state (ex_registry_arrays ! 0) AND CS_FLAG_STATE_OWNER ex_header \<noteq> 0"
    "set_option (array (ex_registry_arrays ! 0)) \<inter> {201} = {}"
    "array_desc_state (ex_registry_arrays ! 1) AND CS_FLAG_STATE_OWNER ex_header = 0"
    "array (ex_registry_arrays ! 1) = Some 201"
    "201 \<notin> released ex_header (take 2 ex_registry_arrays)"
    by (simp_all add: ex_registry_arrays_def ex_st_value_def ex_header_def released_def)
  show ?thesis using ex_destroy eq facts by simp
qed

section \<open>Division by the dual volume\<close>













end
